theory Spec2Isabelle
  imports Complex_Main
begin

section \<open>Scope of the model\<close>

text \<open>
  A shallow embedding of \<^verbatim>\<open>scripts/fpv_energy_scan.py\<close>: the detector bridge
  (\<^verbatim>\<open>parse_rf_map\<close>), the location poll, the alert builder, the confirmation
  engine with its breaker, the bounded-retry reopen, the warm-up calibration and the
  scan loop of \<^verbatim>\<open>main\<close>.

  \<^item> Python floats are modelled as \<^typ>\<open>real\<close>: comparisons, sums and maxima are
    exact, and the non-finite values (NaN, Infinity) are outside the model.
  \<^item> Python strings are \<^typ>\<open>string\<close>; a character stands for a code point below 256.
  \<^item> Everything the program does to the outside world is an \<open>event\<close> of a trace, in
    program order. What the outside world answers (the radio, the telemetry socket, the
    classifier subprocess, the detector's message store) is an argument of the model.
  \<^item> The standard-library functions \<^verbatim>\<open>json.loads\<close> and \<^verbatim>\<open>float(str)\<close> are
    arguments too (the record \<open>pylib\<close>): every theorem holds for each decoder.
  \<^item> Every exception the source can raise is a value of \<open>py_error\<close>;
    \<^verbatim>\<open>KeyboardInterrupt\<close> is asynchronous and is not modelled, so a trace is the
    run up to any interruption.
\<close>

section \<open>Configuration constants\<close>

definition RACE_BANDS_ALL_MHZ :: "int list" where
  "RACE_BANDS_ALL_MHZ =
    [5865, 5845, 5825, 5805, 5785, 5765, 5745, 5725,
     5733, 5752, 5771, 5790, 5809, 5828, 5847, 5866,
     5705, 5685, 5665, 5645, 5885, 5905, 5925, 5945,
     5740, 5760, 5780, 5800, 5820, 5840, 5860, 5880,
     5658, 5695, 5732, 5769, 5806, 5843, 5880, 5917,
     5333, 5373, 5413, 5453, 5493, 5533, 5573, 5613,
     4990, 5020, 5050, 5080, 5110, 5140, 5170, 5200]"

definition EXTRA_59_MHZ :: "int list" where
  "EXTRA_59_MHZ = [5935, 5940, 5943, 5950]"

definition ALL_CENTERS_MHZ :: "int list" where
  "ALL_CENTERS_MHZ = sorted_list_of_set (set (RACE_BANDS_ALL_MHZ @ EXTRA_59_MHZ))"

definition AUTO_THRESHOLD :: bool where "AUTO_THRESHOLD = False"
definition THRESHOLD_DB :: real where "THRESHOLD_DB = - 90"
definition MIN_BW_HZ :: real where "MIN_BW_HZ = 4000000"
definition SETTLE_S :: real where "SETTLE_S = 12 / 100"
definition DWELL_S :: real where "DWELL_S = 4 / 10"
definition WARMUP_SWEEPS :: nat where "WARMUP_SWEEPS = 1"
definition THRESHOLD_OFFSET_DB :: real where "THRESHOLD_OFFSET_DB = 6"
definition SUSCLI_BIN :: string where "SUSCLI_BIN = ''suscli''"
definition CONFIRM_SECONDS :: real where "CONFIRM_SECONDS = 5"
definition COOLDOWN_S :: real where "COOLDOWN_S = 3"
definition REOPEN_RETRIES :: nat where "REOPEN_RETRIES = 5"
definition REOPEN_DELAY_S :: real where "REOPEN_DELAY_S = 2"

section \<open>Python values, exceptions and library functions\<close>

datatype py_error =
    AttributeError
  | TypeError
  | ValueError
  | OverflowError
  | StatisticsError
  | JSONDecodeError
  | RuntimeError string
  | OtherError string

text \<open>What \<^verbatim>\<open>json.loads\<close> returns: \<open>JNull\<close> is Python's \<^verbatim>\<open>None\<close>, a \<open>JObj\<close>
  is a dict (its keys distinct).\<close>

datatype json =
    JNull
  | JBool bool
  | JInt int
  | JFloat real
  | JStr string
  | JArr "json list"
  | JObj "(string \<times> json) list"

record pylib =
  json_loads :: "string \<Rightarrow> py_error + json"
  float_of_str :: "string \<Rightarrow> real option"

text \<open>Sequencing of a computation that may raise.\<close>

definition and_then :: "'e + 'a \<Rightarrow> ('a \<Rightarrow> 'e + 'b) \<Rightarrow> 'e + 'b" where
  "and_then m f = (case m of Inl e \<Rightarrow> Inl e | Inr x \<Rightarrow> f x)"

text \<open>\<^verbatim>\<open>d.get(key, default)\<close>: an \<^verbatim>\<open>AttributeError\<close> when \<open>d\<close> is a value without
  \<^verbatim>\<open>get\<close>, that is, anything but a dict.\<close>

definition py_get :: "json \<Rightarrow> string \<Rightarrow> json \<Rightarrow> py_error + json" where
  "py_get d key dflt =
     (case d of
        JObj kvs \<Rightarrow> (case map_of kvs key of Some v \<Rightarrow> Inr v | None \<Rightarrow> Inr dflt)
      | _ \<Rightarrow> Inl AttributeError)"

text \<open>\<^verbatim>\<open>float(n)\<close> of an int raises \<^verbatim>\<open>OverflowError\<close> when \<open>n\<close> rounds to a
  magnitude of \<open>2 ^ 1024\<close>.\<close>

definition float_overflows :: "int \<Rightarrow> bool" where
  "float_overflows n = (\<bar>n\<bar> \<ge> 2 ^ 1024 - 2 ^ 970)"

definition py_float :: "pylib \<Rightarrow> json \<Rightarrow> py_error + real" where
  "py_float lib v =
     (case v of
        JNull \<Rightarrow> Inl TypeError
      | JBool b \<Rightarrow> Inr (if b then 1 else 0)
      | JInt n \<Rightarrow> (if float_overflows n then Inl OverflowError else Inr (real_of_int n))
      | JFloat r \<Rightarrow> Inr r
      | JStr s \<Rightarrow> (case float_of_str lib s of None \<Rightarrow> Inl ValueError | Some r \<Rightarrow> Inr r)
      | JArr xs \<Rightarrow> Inl TypeError
      | JObj kvs \<Rightarrow> Inl TypeError)"

text \<open>\<^verbatim>\<open>isinstance(v, (int, float))\<close>; \<^verbatim>\<open>bool\<close> is a subclass of \<^verbatim>\<open>int\<close>.\<close>

definition is_number :: "json \<Rightarrow> bool" where
  "is_number v = (case v of JBool b \<Rightarrow> True | JInt n \<Rightarrow> True | JFloat r \<Rightarrow> True | _ \<Rightarrow> False)"

definition startswith :: "string \<Rightarrow> string \<Rightarrow> bool" where
  "startswith s p = (take (length p) s = p)"

text \<open>\<^verbatim>\<open>needle in s\<close> on strings.\<close>

fun contains :: "string \<Rightarrow> string \<Rightarrow> bool" where
  "contains needle [] = (needle = [])"
| "contains needle (c # cs) = (startswith (c # cs) needle \<or> contains needle cs)"

text \<open>\<^verbatim>\<open>str.splitlines()\<close>: a line ends at \<^verbatim>\<open>\n\<close>, \<^verbatim>\<open>\r\<close>, \<^verbatim>\<open>\r\n\<close>, \<^verbatim>\<open>\v\<close>,
  \<^verbatim>\<open>\f\<close>, \<^verbatim>\<open>\x1c\<close>, \<^verbatim>\<open>\x1d\<close>, \<^verbatim>\<open>\x1e\<close> or \<^verbatim>\<open>\x85\<close>; the line ends are dropped and
  no empty last line is produced.\<close>

definition is_linebreak :: "char \<Rightarrow> bool" where
  "is_linebreak c = (c \<in> {CHR 0x0A, CHR 0x0B, CHR 0x0C, CHR 0x0D, CHR 0x1C, CHR 0x1D, CHR 0x1E, CHR 0x85})"

fun splitlines_from :: "string \<Rightarrow> string \<Rightarrow> string list" where
  "splitlines_from cur [] = (if cur = [] then [] else [cur])"
| "splitlines_from cur [c] = (if is_linebreak c then [cur] else [cur @ [c]])"
| "splitlines_from cur (c # d # ds) =
     (if c = CHR 0x0D \<and> d = CHR 0x0A then cur # splitlines_from [] ds
      else if is_linebreak c then cur # splitlines_from [] (d # ds)
      else splitlines_from (cur @ [c]) (d # ds))"

definition splitlines :: "string \<Rightarrow> string list" where
  "splitlines s = splitlines_from [] s"

text \<open>\<^verbatim>\<open>statistics.median\<close>: the middle of the sorted data, the mean of the two middle
  values when their number is even, \<^verbatim>\<open>StatisticsError\<close> on no data.\<close>

definition median :: "real list \<Rightarrow> py_error + real" where
  "median data =
     (let s = sort data; n = length s in
      if n = 0 then Inl StatisticsError
      else if n mod 2 = 1 then Inr (s ! (n div 2))
      else (let i = n div 2 in Inr ((s ! (i - 1) + s ! i) / 2)))"

section \<open>Process state and the trace of effects\<close>

text \<open>The two module globals, and \<open>tb\<close>: whether the variable \<^verbatim>\<open>tb\<close> of
  \<^verbatim>\<open>main\<close> holds a top block (is not \<^verbatim>\<open>None\<close>).\<close>

record state =
  last_sensor_gps :: "(real \<times> real \<times> real) option"
  confirm_disabled_reason :: "string option"
  tb :: bool

text \<open>The parts of an alert, in the order of \<^verbatim>\<open>build_alert_messages\<close>. The alert id
  is a formatted string of \<^verbatim>\<open>center_hz / 1e6\<close>; the model keeps the number.\<close>

datatype alert_part =
    BasicID real
  | LocationVector real real real real real real
  | SelfID string
  | FrequencyMessage real
  | SignalInfo string real real real real

text \<open>The lines the program prints, by kind, with the values they are formatted from.\<close>

datatype out_line =
    WarnConfirmDisabled string
  | WarnOpenFailed nat py_error
  | DebugWarmup real
  | SignalsLine int "(real \<times> real) list"
  | SignalsNone int
  | ConfirmSkipped real
  | ConfirmScores real real real
  | DebugConfirm real real real real

text \<open>
  \<open>HwConstruct thr\<close>: \<^verbatim>\<open>InspectorScan(thr, ...)\<close> returned (the radio source is
  created); \<open>HwStart\<close>, \<open>HwStop\<close>, \<open>HwWait\<close>: \<^verbatim>\<open>tb.start()\<close>, \<^verbatim>\<open>tb.stop()\<close>,
  \<^verbatim>\<open>tb.wait()\<close> returned. \<open>SubprocessRun hz\<close>: \<^verbatim>\<open>subprocess.run\<close> is called with
  \<^verbatim>\<open>--frequency=hz\<close>; \<open>SubprocessEnd\<close>: that call returned or raised.
  \<open>Publish\<close>: \<^verbatim>\<open>send_string\<close> is called (its failure is swallowed).
\<close>

datatype event =
    HwConstruct real
  | HwStart
  | HwStop
  | HwWait
  | GcCollect
  | SetCenter real
  | Sleep real
  | Print out_line
  | Publish "alert_part list"
  | SubprocessRun real
  | SubprocessEnd

section \<open>Detector bridge\<close>

text \<open>The detector's message: a vector of rows, each holding the frequency offset at
  index 0 and the bandwidth at index 1.\<close>

type_synonym rf_map = "(real \<times> real) list"

text \<open>\<^verbatim>\<open>get_latest_map\<close>, on the messages stored by the message sink so far.\<close>

definition get_latest_map :: "rf_map list \<Rightarrow> rf_map option" where
  "get_latest_map msgs =
     (let count = length msgs in if count = 0 then None else Some (msgs ! (count - 1)))"

text \<open>The loop \<^verbatim>\<open>for i in range(pmt.length(msg))\<close> of \<^verbatim>\<open>parse_rf_map\<close>.\<close>

fun parse_rf_rows :: "rf_map \<Rightarrow> real \<Rightarrow> nat list \<Rightarrow> (real \<times> real) list \<Rightarrow> (real \<times> real) list" where
  "parse_rf_rows msg center_hz [] signals = signals"
| "parse_rf_rows msg center_hz (i # rest) signals =
     (let row = msg ! i;
          freq_off = fst row;
          bw = snd row;
          abs_hz = center_hz + freq_off
      in parse_rf_rows msg center_hz rest
           (if bw \<ge> MIN_BW_HZ then signals @ [(abs_hz, bw)] else signals))"

definition parse_rf_map :: "rf_map option \<Rightarrow> real \<Rightarrow> (real \<times> real) list" where
  "parse_rf_map msg center_hz =
     (case msg of
        None \<Rightarrow> []
      | Some m \<Rightarrow> parse_rf_rows m center_hz [0..<length m] [])"

text \<open>\<^verbatim>\<open>max(signals, key=lambda s: s[1])\<close> on a list that starts with \<open>best\<close>: the
  first pair of the largest bandwidth.\<close>

fun max_by_bw :: "(real \<times> real) \<Rightarrow> (real \<times> real) list \<Rightarrow> (real \<times> real)" where
  "max_by_bw best [] = best"
| "max_by_bw best (s # rest) = max_by_bw (if snd s > snd best then s else best) rest"

section \<open>Location tracker\<close>

definition is_valid_latlon :: "pylib \<Rightarrow> json \<Rightarrow> json \<Rightarrow> py_error + bool" where
  "is_valid_latlon lib lat lon =
     (if \<not> is_number lat \<or> \<not> is_number lon then Inr False
      else and_then (py_float lib lat) (\<lambda>la.
           if \<not> (- 90 \<le> la \<and> la \<le> 90) then Inr False
           else and_then (py_float lib lon) (\<lambda>lo. Inr (- 180 \<le> lo \<and> lo \<le> 180))))"

text \<open>What \<^verbatim>\<open>recv_string(flags=zmq.NOBLOCK)\<close> does on one call.\<close>

datatype recv_outcome = Again | RecvError | Received string

text \<open>\<open>sub_sock = None\<close>: the socket is \<^verbatim>\<open>None\<close>. The result is the new state, or
  the exception that leaves the function.\<close>

definition poll_monitor_for_gps :: "pylib \<Rightarrow> recv_outcome option \<Rightarrow> state \<Rightarrow> py_error + state" where
  "poll_monitor_for_gps lib sub_sock st =
     (case sub_sock of
        None \<Rightarrow> Inr st
      | Some Again \<Rightarrow> Inr st
      | Some RecvError \<Rightarrow> Inr st
      | Some (Received msg) \<Rightarrow>
          (case json_loads lib msg of
             Inl e \<Rightarrow> (if e = JSONDecodeError then Inr st else Inl e)
           | Inr payload \<Rightarrow>
               and_then (py_get payload ''lat'' JNull) (\<lambda>lat.
               and_then (py_get payload ''lon'' JNull) (\<lambda>lon.
               and_then (py_get payload ''alt'' (JFloat 0)) (\<lambda>alt.
               and_then (is_valid_latlon lib lat lon) (\<lambda>valid.
                 if valid then
                   and_then (py_float lib lat) (\<lambda>la.
                   and_then (py_float lib lon) (\<lambda>lo.
                   and_then (py_float lib alt) (\<lambda>al.
                     Inr (st\<lparr>last_sensor_gps := Some (la, lo, al)\<rparr>))))
                 else Inr st))))))"

section \<open>Alert publisher\<close>

definition build_alert_messages :: "state \<Rightarrow> real \<Rightarrow> real \<Rightarrow> real \<Rightarrow> real \<Rightarrow> string \<Rightarrow> alert_part list" where
  "build_alert_messages st center_hz bandwidth_hz pal ntsc source =
     [BasicID (center_hz / 1000000)]
     @ (case last_sensor_gps st of
          None \<Rightarrow> []
        | Some (lat, lon, alt) \<Rightarrow> [LocationVector lat lon alt 0 0 0])
     @ [SelfID (''FPV alert ('' @ source @ '')''),
        FrequencyMessage center_hz,
        SignalInfo source center_hz bandwidth_hz pal ntsc]"

definition publish_alert :: "state \<Rightarrow> real \<Rightarrow> real \<Rightarrow> real \<Rightarrow> real \<Rightarrow> string \<Rightarrow> event list" where
  "publish_alert st center_hz bandwidth_hz pal ntsc source =
     [Publish (build_alert_messages st center_hz bandwidth_hz pal ntsc source)]"

section \<open>Confirmation engine\<close>

definition disable_confirm :: "string \<Rightarrow> state \<Rightarrow> event list \<times> state" where
  "disable_confirm reason st =
     (if confirm_disabled_reason st = None
      then ([Print (WarnConfirmDisabled reason)], st\<lparr>confirm_disabled_reason := Some reason\<rparr>)
      else ([], st))"

text \<open>What \<^verbatim>\<open>subprocess.run\<close> does: \<^verbatim>\<open>FileNotFoundError\<close>, \<^verbatim>\<open>TimeoutExpired\<close> with
  the output captured so far (or \<^verbatim>\<open>None\<close>), a completed process with its return
  code, standard output and standard error, or another exception (a
  \<^verbatim>\<open>PermissionError\<close>, say), which \<^verbatim>\<open>run_confirm\<close> does not catch.\<close>

datatype proc_outcome =
    FileNotFound
  | TimeoutExpired "string option"
  | Completed int string string
  | RunRaises py_error

text \<open>The body of the loop over the output lines, after \<^verbatim>\<open>json.loads\<close>.\<close>

definition record_scores :: "pylib \<Rightarrow> json \<Rightarrow> py_error + real \<times> real" where
  "record_scores lib data =
     and_then (py_get data ''signal'' (JObj [])) (\<lambda>sig.
     and_then (py_get sig ''pal'' (JFloat 0)) (\<lambda>p.
     and_then (py_float lib p) (\<lambda>pal.
     and_then (py_get sig ''ntsc'' (JFloat 0)) (\<lambda>n.
     and_then (py_float lib n) (\<lambda>ntsc. Inr (pal, ntsc))))))"

fun parse_lines :: "pylib \<Rightarrow> string list \<Rightarrow> nat \<Rightarrow> real \<Rightarrow> real \<Rightarrow> py_error + real \<times> real" where
  "parse_lines lib [] skip_lines max_pal max_ntsc = Inr (max_pal, max_ntsc)"
| "parse_lines lib (line # rest) skip_lines max_pal max_ntsc =
     (if \<not> startswith line ''{'' then parse_lines lib rest skip_lines max_pal max_ntsc
      else if skip_lines > 0 then parse_lines lib rest (skip_lines - 1) max_pal max_ntsc
      else case json_loads lib line of
             Inl e \<Rightarrow> (if e = JSONDecodeError then parse_lines lib rest skip_lines max_pal max_ntsc
                        else Inl e)
           | Inr data \<Rightarrow>
               (case record_scores lib data of
                  Inl e \<Rightarrow> Inl e
                | Inr (pal, ntsc) \<Rightarrow>
                    parse_lines lib rest skip_lines (max max_pal pal) (max max_ntsc ntsc)))"

definition parse_output :: "pylib \<Rightarrow> string \<Rightarrow> py_error + real option \<times> real option" where
  "parse_output lib output =
     (case parse_lines lib (splitlines output) 2 0 0 of
        Inl e \<Rightarrow> Inl e
      | Inr (max_pal, max_ntsc) \<Rightarrow> Inr (Some max_pal, Some max_ntsc))"

text \<open>The result is the pair \<^verbatim>\<open>(pal, ntsc)\<close>, \<open>None\<close> standing for \<^verbatim>\<open>None\<close>, or
  the exception that leaves the function; the state is the one reached either way.\<close>

definition run_confirm ::
  "pylib \<Rightarrow> real \<Rightarrow> proc_outcome \<Rightarrow> state
     \<Rightarrow> event list \<times> state \<times> (py_error + real option \<times> real option)" where
  "run_confirm lib center_hz outcome st =
     (if confirm_disabled_reason st \<noteq> None then ([], st, Inr (None, None))
      else case outcome of
        FileNotFound \<Rightarrow>
          (let (evs, st') = disable_confirm (SUSCLI_BIN @ '' not found in PATH'') st
           in ([SubprocessRun center_hz, SubprocessEnd] @ evs, st', Inr (None, None)))
      | TimeoutExpired partial \<Rightarrow>
          (let output = (case partial of None \<Rightarrow> [] | Some s \<Rightarrow> s)
           in ([SubprocessRun center_hz, SubprocessEnd], st, parse_output lib output))
      | Completed returncode output stderr_text \<Rightarrow>
          (let combined = output @ [CHR 0x0A] @ stderr_text in
           if returncode \<noteq> 0
              \<and> (contains ''Unknown command'' combined \<or> contains ''unknown command'' combined)
           then (let (evs, st') = disable_confirm ''suscli fpvdet command not available'' st
                 in ([SubprocessRun center_hz, SubprocessEnd] @ evs, st', Inr (None, None)))
           else ([SubprocessRun center_hz, SubprocessEnd], st, parse_output lib output))
      | RunRaises e \<Rightarrow> ([SubprocessRun center_hz, SubprocessEnd], st, Inl e))"

section \<open>Hardware session\<close>

text \<open>What one attempt to build and start the top block does: the constructor raises,
  \<^verbatim>\<open>tb.start()\<close> raises, or both succeed.\<close>

datatype hw_attempt = CtorRaises py_error | StartRaises py_error | StartOk

definition is_runtime_error :: "py_error \<Rightarrow> bool" where
  "is_runtime_error e = (case e of RuntimeError m \<Rightarrow> True | _ \<Rightarrow> False)"

text \<open>The loop \<^verbatim>\<open>for attempt in range(1, REOPEN_RETRIES + 1)\<close>; \<open>hw attempt\<close> is what
  the hardware does on that attempt. The constructor call stands before the
  \<^verbatim>\<open>try\<close>, and the handler catches \<^verbatim>\<open>RuntimeError\<close> only.\<close>

fun start_tb_attempts :: "real \<Rightarrow> (nat \<Rightarrow> hw_attempt) \<Rightarrow> nat list \<Rightarrow> event list \<times> (py_error + unit)" where
  "start_tb_attempts threshold_db hw [] =
     ([], Inl (RuntimeError ''failed to reopen SDR after retries''))"
| "start_tb_attempts threshold_db hw (attempt # rest) =
     (case hw attempt of
        CtorRaises e \<Rightarrow> ([], Inl e)
      | StartOk \<Rightarrow> ([HwConstruct threshold_db, HwStart], Inr ())
      | StartRaises e \<Rightarrow>
          (if is_runtime_error e then
             (let (evs, r) = start_tb_attempts threshold_db hw rest
              in ([HwConstruct threshold_db, HwStop, HwWait,
                   Print (WarnOpenFailed attempt e), Sleep REOPEN_DELAY_S] @ evs, r))
           else ([HwConstruct threshold_db], Inl e)))"

definition start_tb_with_retry :: "real \<Rightarrow> (nat \<Rightarrow> hw_attempt) \<Rightarrow> event list \<times> (py_error + unit)" where
  "start_tb_with_retry threshold_db hw = start_tb_attempts threshold_db hw [1..<REOPEN_RETRIES + 1]"

section \<open>Threshold calibrator\<close>

text \<open>The inner loop of \<^verbatim>\<open>warmup_threshold\<close>; \<open>spectrum_at mhz\<close> is what
  \<^verbatim>\<open>get_latest_spectrum\<close> returns on that channel. \<open>median\<close> raises nothing but
  \<^verbatim>\<open>StatisticsError\<close>, which the loop catches.\<close>

fun warmup_channels :: "(int \<Rightarrow> real list) \<Rightarrow> int list \<Rightarrow> real list \<Rightarrow> event list \<times> real list" where
  "warmup_channels spectrum_at [] medians = ([], medians)"
| "warmup_channels spectrum_at (mhz # rest) medians =
     (let center_hz = real_of_int mhz * 1000000;
          spectrum = spectrum_at mhz;
          medians' = (if spectrum \<noteq> []
                      then (case median spectrum of Inr m \<Rightarrow> medians @ [m] | Inl e \<Rightarrow> medians)
                      else medians);
          (evs, out) = warmup_channels spectrum_at rest medians'
      in ([SetCenter center_hz, Sleep SETTLE_S, Sleep DWELL_S] @ evs, out))"

text \<open>The outer loop \<^verbatim>\<open>for _ in range(WARMUP_SWEEPS)\<close>; \<open>spectra k\<close> are the readings
  of sweep \<open>k\<close>.\<close>

fun warmup_sweeps :: "(nat \<Rightarrow> int \<Rightarrow> real list) \<Rightarrow> nat list \<Rightarrow> real list \<Rightarrow> event list \<times> real list" where
  "warmup_sweeps spectra [] medians = ([], medians)"
| "warmup_sweeps spectra (k # ks) medians =
     (let (evs1, medians1) = warmup_channels (spectra k) ALL_CENTERS_MHZ medians;
          (evs2, out) = warmup_sweeps spectra ks medians1
      in (evs1 @ evs2, out))"

definition warmup_threshold :: "(nat \<Rightarrow> int \<Rightarrow> real list) \<Rightarrow> event list \<times> (py_error + real)" where
  "warmup_threshold spectra =
     (let (evs, medians) = warmup_sweeps spectra [0..<WARMUP_SWEEPS] []
      in (evs, if medians = [] then Inr THRESHOLD_DB
               else and_then (median medians) (\<lambda>m. Inr (m + THRESHOLD_OFFSET_DB))))"

section \<open>Scan loop\<close>

text \<open>The command line as far as the loop reads it, and whether
  \<^verbatim>\<open>setup_monitor_sub\<close> returned a socket.\<close>

record run_args =
  zmq :: bool
  debug :: bool
  mon_sub :: bool

text \<open>What the outside world does during one channel visit.\<close>

record visit_env =
  v_recv :: recv_outcome
  v_maps :: "rf_map list"
  v_proc :: proc_outcome
  v_reopen :: "nat \<Rightarrow> hw_attempt"

text \<open>The parts of the branch \<^verbatim>\<open>if signals:\<close> of the loop body: the report of the
  signals with the energy alert, the release of the radio, and the report of a
  confirmation result \<^verbatim>\<open>(pal, ntsc)\<close>.\<close>

definition announce_events :: "run_args \<Rightarrow> int \<Rightarrow> (real \<times> real) list \<Rightarrow> state \<Rightarrow> real \<Rightarrow> real \<Rightarrow> event list" where
  "announce_events a mhz signals st confirm_hz confirm_bw =
     [Print (SignalsLine mhz signals)]
     @ (if zmq a then publish_alert st confirm_hz confirm_bw 0 0 ''energy'' else [])"

definition release_events :: "event list" where
  "release_events = [HwStop, HwWait, GcCollect, Sleep COOLDOWN_S]"

definition report_events :: "run_args \<Rightarrow> state \<Rightarrow> real \<Rightarrow> real \<Rightarrow> real option \<times> real option \<Rightarrow> event list" where
  "report_events a st confirm_hz confirm_bw res =
     (case res of
        (Some p, Some n) \<Rightarrow>
          [Print (ConfirmScores confirm_hz p n)]
          @ (if zmq a then publish_alert st confirm_hz confirm_bw p n ''confirm'' else [])
          @ (if debug a then [Print (DebugConfirm confirm_hz confirm_bw p n)] else [])
      | _ \<Rightarrow> [Print (ConfirmSkipped confirm_hz)])"

text \<open>The branch \<^verbatim>\<open>if signals:\<close> of the loop body, for \<open>signals = s # rest\<close>. The third
  component is the exception that leaves the body, if one does.\<close>

definition confirm_cycle ::
  "pylib \<Rightarrow> run_args \<Rightarrow> real \<Rightarrow> int \<Rightarrow> visit_env \<Rightarrow> (real \<times> real) \<Rightarrow> (real \<times> real) list \<Rightarrow> state
     \<Rightarrow> event list \<times> state \<times> py_error option" where
  "confirm_cycle lib a threshold_db mhz env s rest st =
     (let (confirm_hz, confirm_bw) = max_by_bw s rest;
          evs1 = announce_events a mhz (s # rest) st confirm_hz confirm_bw @ release_events;
          (evs2, st2, r) = run_confirm lib confirm_hz (v_proc env) (st\<lparr>tb := False\<rparr>)
      in case r of
           Inl e \<Rightarrow> (evs1 @ evs2, st2, Some e)
         | Inr res \<Rightarrow>
             (let evs3 = report_events a st2 confirm_hz confirm_bw res @ [Sleep COOLDOWN_S];
                  (evs4, r4) = start_tb_with_retry threshold_db (v_reopen env)
              in case r4 of
                   Inl e \<Rightarrow> (evs1 @ evs2 @ evs3 @ evs4, st2, Some e)
                 | Inr u \<Rightarrow> (evs1 @ evs2 @ evs3 @ evs4, st2\<lparr>tb := True\<rparr>, None)))"

text \<open>One pass of the body of \<^verbatim>\<open>for mhz in ALL_CENTERS_MHZ\<close>.\<close>

definition visit ::
  "pylib \<Rightarrow> run_args \<Rightarrow> real \<Rightarrow> int \<Rightarrow> visit_env \<Rightarrow> state \<Rightarrow> event list \<times> state \<times> py_error option" where
  "visit lib a threshold_db mhz env st =
     (let center_hz = real_of_int mhz * 1000000 in
      case poll_monitor_for_gps lib (if mon_sub a then Some (v_recv env) else None) st of
        Inl e \<Rightarrow> ([], st, Some e)
      | Inr st1 \<Rightarrow>
          (let evs = [SetCenter center_hz, Sleep SETTLE_S, Sleep DWELL_S];
               signals = parse_rf_map (get_latest_map (v_maps env)) center_hz
           in case signals of
                [] \<Rightarrow> (evs @ [Print (SignalsNone mhz)], st1, None)
              | s # rest \<Rightarrow>
                  (let (evs', st2, r) = confirm_cycle lib a threshold_db mhz env s rest st1
                   in (evs @ evs', st2, r))))"

text \<open>The visits of \<^verbatim>\<open>while True: for mhz in ALL_CENTERS_MHZ\<close>, as far as the given
  list goes; an exception ends them.\<close>

fun scan_visits ::
  "pylib \<Rightarrow> run_args \<Rightarrow> real \<Rightarrow> (int \<times> visit_env) list \<Rightarrow> state \<Rightarrow> event list \<times> state \<times> py_error option" where
  "scan_visits lib a threshold_db [] st = ([], st, None)"
| "scan_visits lib a threshold_db ((mhz, env) # rest) st =
     (case visit lib a threshold_db mhz env st of
        (evs, st1, Some e) \<Rightarrow> (evs, st1, Some e)
      | (evs, st1, None) \<Rightarrow>
          (let (evs', st2, r) = scan_visits lib a threshold_db rest st1 in (evs @ evs', st2, r)))"

text \<open>The channels of the first \<open>n\<close> visits.\<close>

definition visit_order :: "nat \<Rightarrow> int list" where
  "visit_order n = take n (concat (replicate n ALL_CENTERS_MHZ))"

text \<open>The \<^verbatim>\<open>try ... finally\<close> of \<^verbatim>\<open>main\<close> around the loop: an exception runs the
  \<^verbatim>\<open>finally\<close> block and leaves \<^verbatim>\<open>main\<close>.\<close>

definition scan_loop ::
  "pylib \<Rightarrow> run_args \<Rightarrow> real \<Rightarrow> visit_env list \<Rightarrow> state \<Rightarrow> event list \<times> state \<times> py_error option" where
  "scan_loop lib a threshold_db envs st =
     (case scan_visits lib a threshold_db (zip (visit_order (length envs)) envs) st of
        (evs, st1, None) \<Rightarrow> (evs, st1, None)
      | (evs, st1, Some e) \<Rightarrow> (evs @ (if tb st1 then [HwStop, HwWait] else []), st1, Some e))"

text \<open>What the outside world does before the loop: the first open, the spectra read
  during the warm-up, and the reopen after it.\<close>

record startup_env =
  su_first_open :: hw_attempt
  su_spectra :: "nat \<Rightarrow> int \<Rightarrow> real list"
  su_reopen :: "nat \<Rightarrow> hw_attempt"

definition initial_state :: state where
  "initial_state = \<lparr>last_sensor_gps = None, confirm_disabled_reason = None, tb = False\<rparr>"

text \<open>\<^verbatim>\<open>main\<close>, run for the visits of \<open>envs\<close>: the trace, the state reached and the
  exception that ended the process, if one did. The first open is outside the
  \<^verbatim>\<open>try\<close> and makes one attempt.\<close>

definition main ::
  "pylib \<Rightarrow> run_args \<Rightarrow> startup_env \<Rightarrow> visit_env list \<Rightarrow> event list \<times> state \<times> py_error option" where
  "main lib a su envs =
     (let threshold_db = THRESHOLD_DB in
      case su_first_open su of
        CtorRaises e \<Rightarrow> ([], initial_state, Some e)
      | StartRaises e \<Rightarrow> ([HwConstruct threshold_db], initial_state\<lparr>tb := True\<rparr>, Some e)
      | StartOk \<Rightarrow>
          (let evs0 = [HwConstruct threshold_db, HwStart];
               st = initial_state\<lparr>tb := True\<rparr>
           in if WARMUP_SWEEPS > 0 \<and> \<not> AUTO_THRESHOLD then
                (case warmup_threshold (su_spectra su) of
                   (evs1, Inl e) \<Rightarrow> (evs0 @ evs1, st, Some e)
                 | (evs1, Inr thr) \<Rightarrow>
                     (let evs2 = (if debug a then [Print (DebugWarmup thr)] else [])
                                 @ [HwStop, HwWait, GcCollect, Sleep COOLDOWN_S];
                          (evs3, r) = start_tb_with_retry thr (su_reopen su)
                      in case r of
                           Inl e \<Rightarrow> (evs0 @ evs1 @ evs2 @ evs3, st\<lparr>tb := False\<rparr>, Some e)
                         | Inr u \<Rightarrow>
                             (let (evs4, st4, r4) = scan_loop lib a thr envs st
                              in (evs0 @ evs1 @ evs2 @ evs3 @ evs4, st4, r4))))
              else (let (evs4, st4, r4) = scan_loop lib a threshold_db envs st
                    in (evs0 @ evs4, st4, r4))))"

section \<open>Observers on traces\<close>








text \<open>An alert part that is no energy-stage signal record with a score other than
  zero; an event that publishes no such part.\<close>

fun energy_scores_zero :: "alert_part \<Rightarrow> bool" where
  "energy_scores_zero (SignalInfo src c bw p n) = (src = ''energy'' \<longrightarrow> p = 0 \<and> n = 0)"
| "energy_scores_zero part = True"

fun alert_ok :: "event \<Rightarrow> bool" where
  "alert_ok (Publish parts) = list_all energy_scores_zero parts"
| "alert_ok e = True"

text \<open>The breaker as seen on a trace: the disable warning, the subprocess call, and a
  trace, read with the breaker set or not (\<open>d\<close>), in which no warning and no
  subprocess call follows a set breaker.\<close>

fun is_disable_warning :: "event \<Rightarrow> bool" where
  "is_disable_warning (Print (WarnConfirmDisabled r)) = True"
| "is_disable_warning e = False"

fun is_subprocess_run :: "event \<Rightarrow> bool" where
  "is_subprocess_run (SubprocessRun hz) = True"
| "is_subprocess_run e = False"

fun breaker_from :: "bool \<Rightarrow> event list \<Rightarrow> bool" where
  "breaker_from d [] = True"
| "breaker_from d (e # es) =
     ((is_disable_warning e \<or> is_subprocess_run e \<longrightarrow> \<not> d)
      \<and> breaker_from (d \<or> is_disable_warning e) es)"

definition disabled_after :: "bool \<Rightarrow> event list \<Rightarrow> bool" where
  "disabled_after d evs = (d \<or> (\<exists>e \<in> set evs. is_disable_warning e))"

section \<open>Closed forms and reference definitions\<close>

text \<open>Closed forms of the warm-up loops: the events of one channel visit, and the
  medians one sweep records.\<close>

definition tune_events :: "int \<Rightarrow> event list" where
  "tune_events mhz = [SetCenter (real_of_int mhz * 1000000), Sleep SETTLE_S, Sleep DWELL_S]"

fun warmup_medians :: "(int \<Rightarrow> real list) \<Rightarrow> int list \<Rightarrow> real list" where
  "warmup_medians sp [] = []"
| "warmup_medians sp (mhz # rest) =
     (if sp mhz = [] then [] else (case median (sp mhz) of Inr m \<Rightarrow> [m] | Inl e \<Rightarrow> []))
     @ warmup_medians sp rest"

text \<open>The events of \<^verbatim>\<open>main\<close> from the first open to the close after the
  warm-up, given the warm-up's events and threshold.\<close>

definition startup_events :: "run_args \<Rightarrow> event list \<Rightarrow> real \<Rightarrow> event list" where
  "startup_events a evw thr =
     [HwConstruct THRESHOLD_DB, HwStart] @ evw
     @ (if debug a then [Print (DebugWarmup thr)] else [])
     @ [HwStop, HwWait, GcCollect, Sleep COOLDOWN_S]"

text \<open>The events of one attempt of \<^verbatim>\<open>start_tb_with_retry\<close> whose \<^verbatim>\<open>tb.start()\<close>
  raises the \<^verbatim>\<open>RuntimeError\<close> \<open>e\<close>, and the exception raised after the last attempt.\<close>

definition failed_attempt_events :: "real \<Rightarrow> nat \<Rightarrow> py_error \<Rightarrow> event list" where
  "failed_attempt_events thr attempt e =
     [HwConstruct thr, HwStop, HwWait, Print (WarnOpenFailed attempt e), Sleep REOPEN_DELAY_S]"

definition reopen_failure :: py_error where
  "reopen_failure = RuntimeError ''failed to reopen SDR after retries''"







text \<open>The median of a list that is not empty, and the medians the warm-up records: one
  for every spectrum read that is not empty, over all sweeps, in the order of the
  visits.\<close>

definition median_value :: "real list \<Rightarrow> real" where
  "median_value xs =
     (let s = sort xs; n = length xs in
      if odd n then s ! (n div 2) else (s ! (n div 2 - 1) + s ! (n div 2)) / 2)"

definition recorded_medians :: "(nat \<Rightarrow> int \<Rightarrow> real list) \<Rightarrow> real list" where
  "recorded_medians spectra =
     map median_value
       (filter (\<lambda>spectrum. spectrum \<noteq> [])
          (concat (map (\<lambda>k. map (spectra k) ALL_CENTERS_MHZ) [0..<WARMUP_SWEEPS])))"

section \<open>Example inputs\<close>

text \<open>A decoder that agrees with \<^verbatim>\<open>json.loads\<close> and \<^verbatim>\<open>float\<close> on the texts used
  in the examples below, and rejects every other text.\<close>

definition example_lib :: pylib where
  \<open>example_lib =
     \<lparr>json_loads = (\<lambda>s.
        if s = ''{"lat": 95.0, "lon": 10.0, "alt": 5.0}''
          then Inr (JObj [(''lat'', JFloat 95), (''lon'', JFloat 10), (''alt'', JFloat 5)])
        else if s = ''{"lat": 45.0, "lon": -120.0, "alt": 100.0}''
          then Inr (JObj [(''lat'', JFloat 45), (''lon'', JFloat (- 120)), (''alt'', JFloat 100)])
        else if s = ''{"lat": 45.0, "lon": -120.0, "alt": null}''
          then Inr (JObj [(''lat'', JFloat 45), (''lon'', JFloat (- 120)), (''alt'', JNull)])
        else if s = ''[45.0, -120.0]''
          then Inr (JArr [JFloat 45, JFloat (- 120)])
        else if s = ''{"header": 1}''
          then Inr (JObj [(''header'', JInt 1)])
        else if s = ''{"signal": {"pal": 0.2, "ntsc": 0.1}}''
          then Inr (JObj [(''signal'', JObj [(''pal'', JFloat (2 / 10)), (''ntsc'', JFloat (1 / 10))])])
        else if s = ''{"signal": {"pal": 0.9, "ntsc": 0.1}}''
          then Inr (JObj [(''signal'', JObj [(''pal'', JFloat (9 / 10)), (''ntsc'', JFloat (1 / 10))])])
        else if s = ''{"signal": {"pal": 0.4, "ntsc": 0.8}}''
          then Inr (JObj [(''signal'', JObj [(''pal'', JFloat (4 / 10)), (''ntsc'', JFloat (8 / 10))])])
        else if s = ''{"signal": {"pal": -1.0, "ntsc": -0.5}}''
          then Inr (JObj [(''signal'', JObj [(''pal'', JFloat (- 1)), (''ntsc'', JFloat (- 5 / 10))])])
        else Inl JSONDecodeError),
      float_of_str = (\<lambda>s. None)\<rparr>\<close>

definition example_args :: run_args where
  "example_args = \<lparr>zmq = True, debug = False, mon_sub = True\<rparr>"

definition example_startup :: startup_env where
  "example_startup =
     \<lparr>su_first_open = StartOk, su_spectra = (\<lambda>k mhz. []), su_reopen = (\<lambda>n. StartOk)\<rparr>"

text \<open>A visit on which the detector reports two signals and the classifier binary is
  missing.\<close>

definition example_visit :: visit_env where
  "example_visit =
     \<lparr>v_recv = Again,
      v_maps = [[(200000, 4200000), (500000, 6000000)]],
      v_proc = FileNotFound,
      v_reopen = (\<lambda>n. StartOk)\<rparr>"

text \<open>Hardware that fails on every attempt: in \<^verbatim>\<open>tb.start()\<close>, or in the
  constructor.\<close>

definition always_busy :: "nat \<Rightarrow> hw_attempt" where
  "always_busy attempt = StartRaises (RuntimeError ''device busy'')"

definition ctor_busy :: "nat \<Rightarrow> hw_attempt" where
  "ctor_busy attempt = CtorRaises (RuntimeError ''device busy'')"



text \<open>Spectra read during a warm-up: samples on three channels, with the medians
  \<open>-95\<close>, \<open>-93\<close> and \<open>-94\<close>, and nothing on the others.\<close>

definition example_spectra :: "nat \<Rightarrow> int \<Rightarrow> real list" where
  "example_spectra k mhz =
     (if mhz = 4990 then [- 96, - 95, - 90]
      else if mhz = 5020 then [- 93]
      else if mhz = 5050 then [- 95, - 93]
      else [])"

text \<open>Telemetry messages: a fix with a null altitude, a latitude out of range, a
  valid fix, and a JSON array.\<close>

definition alt_null_message :: string where
  \<open>alt_null_message = ''{"lat": 45.0, "lon": -120.0, "alt": null}''\<close>

definition out_of_range_message :: string where
  \<open>out_of_range_message = ''{"lat": 95.0, "lon": 10.0, "alt": 5.0}''\<close>

definition valid_fix_message :: string where
  \<open>valid_fix_message = ''{"lat": 45.0, "lon": -120.0, "alt": 100.0}''\<close>

definition array_message :: string where
  \<open>array_message = ''[45.0, -120.0]''\<close>

section \<open>Lemmas shared by the sections below\<close>

text \<open>Closed forms of the warm-up loops, the possible event lists of one
  \<^verbatim>\<open>run_confirm\<close> call, the median of a list that is not empty, and the four ways
  a run of \<^verbatim>\<open>main\<close> can go.\<close>

lemma warmup_channels_eq:
  "warmup_channels sp chans ms = (concat (map tune_events chans), ms @ warmup_medians sp chans)"
  by (induction chans arbitrary: ms) (simp_all add: Let_def tune_events_def split: sum.splits)

lemma warmup_sweeps_eq:
  "warmup_sweeps spectra ks ms =
     (concat (map (\<lambda>k. concat (map tune_events ALL_CENTERS_MHZ)) ks),
      ms @ concat (map (\<lambda>k. warmup_medians (spectra k) ALL_CENTERS_MHZ) ks))"
  by (induction ks arbitrary: ms) (simp_all add: warmup_channels_eq)

lemma run_confirm_events:
  "fst (run_confirm lib hz outcome st) = []
   \<or> (\<exists>w. fst (run_confirm lib hz outcome st) = [SubprocessRun hz, SubprocessEnd] @ w
          \<and> (w = [] \<or> (\<exists>r. w = [Print (WarnConfirmDisabled r)])))"
  by (auto simp: run_confirm_def disable_confirm_def Let_def split: proc_outcome.splits)

lemma sort_eq_Nil: "(sort xs = []) = (xs = [])"
  by (metis length_sort length_0_conv)

lemma median_nonempty:
  "xs \<noteq> [] \<Longrightarrow>
     median xs = Inr (if length xs mod 2 = 1 then sort xs ! (length xs div 2)
                      else (sort xs ! (length xs div 2 - 1) + sort xs ! (length xs div 2)) / 2)"
  by (simp add: median_def Let_def sort_eq_Nil)

lemma warmup_threshold_returns: "\<exists>thr. snd (warmup_threshold spectra) = Inr thr"
proof -
  obtain evs ms where w: "warmup_sweeps spectra [0..<WARMUP_SWEEPS] [] = (evs, ms)"
    by (cases "warmup_sweeps spectra [0..<WARMUP_SWEEPS] []")
  show ?thesis
  proof (cases "ms = []")
    case True
    with w show ?thesis by (simp add: warmup_threshold_def)
  next
    case False
    then obtain m where "median ms = Inr m" using median_nonempty [of ms] by blast
    with w False show ?thesis by (simp add: warmup_threshold_def and_then_def)
  qed
qed

lemma main_cases:
  obtains
    (ctor) e where "main lib a su envs = ([], initial_state, Some e)"
  | (first_start) e where
      "main lib a su envs = ([HwConstruct THRESHOLD_DB], initial_state\<lparr>tb := True\<rparr>, Some e)"
  | (reopen_failed) evw thr ev3 e where
      "warmup_threshold (su_spectra su) = (evw, Inr thr)"
      "start_tb_with_retry thr (su_reopen su) = (ev3, Inl e)"
      "main lib a su envs = (startup_events a evw thr @ ev3, initial_state\<lparr>tb := False\<rparr>, Some e)"
  | (running) evw thr ev3 ev4 st4 r4 where
      "warmup_threshold (su_spectra su) = (evw, Inr thr)"
      "start_tb_with_retry thr (su_reopen su) = (ev3, Inr ())"
      "scan_loop lib a thr envs (initial_state\<lparr>tb := True\<rparr>) = (ev4, st4, r4)"
      "main lib a su envs = (startup_events a evw thr @ ev3 @ ev4, st4, r4)"
proof (cases "su_first_open su")
  case (CtorRaises e)
  then have "main lib a su envs = ([], initial_state, Some e)" by (simp add: main_def)
  then show ?thesis by (rule ctor)
next
  case (StartRaises e)
  then have "main lib a su envs = ([HwConstruct THRESHOLD_DB], initial_state\<lparr>tb := True\<rparr>, Some e)"
    by (simp add: main_def)
  then show ?thesis by (rule first_start)
next
  case StartOk
  obtain evw thr where w: "warmup_threshold (su_spectra su) = (evw, Inr thr)"
    using warmup_threshold_returns [of "su_spectra su"]
    by (cases "warmup_threshold (su_spectra su)") auto
  obtain ev3 r3 where rt: "start_tb_with_retry thr (su_reopen su) = (ev3, r3)"
    by (cases "start_tb_with_retry thr (su_reopen su)")
  show ?thesis
  proof (cases r3)
    case (Inl e)
    have "main lib a su envs = (startup_events a evw thr @ ev3, initial_state\<lparr>tb := False\<rparr>, Some e)"
      using StartOk w rt Inl
      by (simp add: main_def startup_events_def WARMUP_SWEEPS_def AUTO_THRESHOLD_def)
    with w rt Inl show ?thesis using reopen_failed by blast
  next
    case (Inr u)
    obtain ev4 st4 r4 where sl: "scan_loop lib a thr envs (initial_state\<lparr>tb := True\<rparr>) = (ev4, st4, r4)"
      by (cases "scan_loop lib a thr envs (initial_state\<lparr>tb := True\<rparr>)")
    have "main lib a su envs = (startup_events a evw thr @ ev3 @ ev4, st4, r4)"
      using StartOk w rt Inr sl
      by (simp add: main_def startup_events_def WARMUP_SWEEPS_def AUTO_THRESHOLD_def)
    with w rt Inr sl show ?thesis using running by simp
  qed
qed



lemma ALL_CENTERS_MHZ_nonempty: "ALL_CENTERS_MHZ \<noteq> []"
  by code_simp

lemma length_concat_replicate_ge:
  "xs \<noteq> [] \<Longrightarrow> n \<le> length (concat (replicate n xs))"
proof -
  assume "xs \<noteq> []"
  then have "1 \<le> length xs" by (cases xs) simp_all
  moreover have "length (concat (replicate n xs)) = n * length xs"
    by (induction n) simp_all
  ultimately show ?thesis by simp
qed

lemma take_concat_replicate:
  "take n (concat (replicate (n + k) xs)) = take n (concat (replicate n xs))"
proof (cases "xs = []")
  case True
  then show ?thesis by simp
next
  case False
  then show ?thesis
    using length_concat_replicate_ge [of xs n] by (simp add: replicate_add)
qed

lemma visit_order_prefix: "take n (visit_order (n + k)) = visit_order n"
  by (simp add: visit_order_def take_concat_replicate min_def)

lemma length_visit_order: "length (visit_order n) = n"
  using length_concat_replicate_ge [OF ALL_CENTERS_MHZ_nonempty, of n]
  by (simp add: visit_order_def)

lemma zip_visit_order_next:
  "zip (visit_order (length (envs @ env # later))) (envs @ env # later) =
     zip (visit_order (length envs)) envs
     @ (visit_order (Suc (length envs)) ! length envs, env)
       # zip (drop (Suc (length envs)) (visit_order (length (envs @ env # later)))) later"
proof -
  let ?n = "length envs" and ?N = "length (envs @ env # later)"
  have N: "?N = Suc ?n + length later" by simp
  have t1: "take ?n (visit_order ?N) = visit_order ?n"
    using visit_order_prefix [of ?n "Suc (length later)"] by simp
  have t2: "take (Suc ?n) (visit_order ?N) = visit_order (Suc ?n)"
    unfolding N by (rule visit_order_prefix)
  have nth: "visit_order ?N ! ?n = visit_order (Suc ?n) ! ?n"
    using t2 by (metis lessI nth_take)
  have lt: "?n < length (visit_order ?N)"
    by (simp add: length_visit_order)
  have "drop ?n (visit_order ?N) = visit_order ?N ! ?n # drop (Suc ?n) (visit_order ?N)"
    using lt by (simp add: Cons_nth_drop_Suc)
  then show ?thesis
    using t1 nth by (simp add: zip_append2 del: length_append)
qed

lemma scan_visits_append_None:
  "scan_visits lib a thr vs st = (e1, st1, None) \<Longrightarrow>
     scan_visits lib a thr (vs @ ws) st =
       (case scan_visits lib a thr ws st1 of (e2, st2, r) \<Rightarrow> (e1 @ e2, st2, r))"
proof (induction vs arbitrary: st e1)
  case Nil
  then show ?case by (simp split: prod.splits)
next
  case (Cons v vs)
  obtain mhz env where v: "v = (mhz, env)" by (cases v)
  obtain ev sv rv where vis: "visit lib a thr mhz env st = (ev, sv, rv)"
    by (cases "visit lib a thr mhz env st")
  have rv: "rv = None"
    using Cons.prems v vis by (cases rv) (simp_all split: prod.splits)
  obtain e' s' r' where rest: "scan_visits lib a thr vs sv = (e', s', r')"
    by (cases "scan_visits lib a thr vs sv")
  have r': "r' = None" "s' = st1" "e1 = ev @ e'"
    using Cons.prems v vis rv rest by simp_all
  have "scan_visits lib a thr (vs @ ws) sv =
       (case scan_visits lib a thr ws st1 of (e2, st2, r) \<Rightarrow> (e' @ e2, st2, r))"
    using Cons.IH [of sv e'] rest r' by simp
  then show ?case
    using v vis rv r' by (simp split: prod.splits)
qed

lemma main_running:
  assumes "main lib a su envs = (evs1, st1, None)"
    and "snd (warmup_threshold (su_spectra su)) = Inr thr"
  obtains pre ev4 where "evs1 = pre @ ev4"
    and "scan_visits lib a thr (zip (visit_order (length envs)) envs) (initial_state\<lparr>tb := True\<rparr>)
           = (ev4, st1, None)"
    and "\<And>envs'. main lib a su envs' =
           (case scan_loop lib a thr envs' (initial_state\<lparr>tb := True\<rparr>) of
              (e, s, r) \<Rightarrow> (pre @ e, s, r))"
proof (cases rule: main_cases [of lib a su envs])
  case (ctor e)
  with assms(1) show ?thesis by simp
next
  case (first_start e)
  with assms(1) show ?thesis by simp
next
  case (reopen_failed evw thr' ev3 e)
  with assms(1) show ?thesis by simp
next
  case (running evw thr' ev3 ev4 st4 r4)
  have thr: "thr' = thr" using running(1) assms(2) by simp
  have r4: "r4 = None" "st4 = st1" "evs1 = (startup_events a evw thr @ ev3) @ ev4"
    using running(4) assms(1) thr by simp_all
  have sv: "scan_visits lib a thr (zip (visit_order (length envs)) envs) (initial_state\<lparr>tb := True\<rparr>)
           = (ev4, st1, None)"
    using running(3) r4 thr by (auto simp: scan_loop_def split: prod.splits option.splits)
  have ok: "su_first_open su = StartOk"
  proof (cases "su_first_open su")
    case (CtorRaises x)
    then show ?thesis using assms(1) by (simp add: main_def)
  next
    case (StartRaises x)
    then show ?thesis using assms(1) by (simp add: main_def)
  qed simp
  have all: "main lib a su envs' =
           (case scan_loop lib a thr envs' (initial_state\<lparr>tb := True\<rparr>) of
              (e, s, r) \<Rightarrow> ((startup_events a evw thr @ ev3) @ e, s, r))" for envs'
    using ok running(1,2) thr
    by (simp add: main_def startup_events_def WARMUP_SWEEPS_def AUTO_THRESHOLD_def split: prod.splits)
  show ?thesis
    using that [OF r4(3) sv all] .
qed

lemma main_next_visit_raises:
  assumes "main lib a su envs = (evs1, st1, None)"
    and "snd (warmup_threshold (su_spectra su)) = Inr thr"
    and "visit lib a thr (visit_order (Suc (length envs)) ! length envs) env st1 = (evs2, st2, Some e)"
  shows "main lib a su (envs @ env # later) =
           (evs1 @ evs2 @ (if tb st2 then [HwStop, HwWait] else []), st2, Some e)"
proof -
  obtain pre ev4 where m: "evs1 = pre @ ev4"
    "scan_visits lib a thr (zip (visit_order (length envs)) envs) (initial_state\<lparr>tb := True\<rparr>)
           = (ev4, st1, None)"
    "\<And>envs'. main lib a su envs' =
           (case scan_loop lib a thr envs' (initial_state\<lparr>tb := True\<rparr>) of
              (e, s, r) \<Rightarrow> (pre @ e, s, r))"
    using main_running [OF assms(1,2)] by blast
  have "scan_visits lib a thr (zip (visit_order (length (envs @ env # later))) (envs @ env # later))
          (initial_state\<lparr>tb := True\<rparr>) = (ev4 @ evs2, st2, Some e)"
    unfolding zip_visit_order_next
    using scan_visits_append_None [OF m(2)] assms(3) by simp
  then have "scan_loop lib a thr (envs @ env # later) (initial_state\<lparr>tb := True\<rparr>) =
      ((ev4 @ evs2) @ (if tb st2 then [HwStop, HwWait] else []), st2, Some e)"
    by (simp add: scan_loop_def)
  then show ?thesis
    using m(3) [of "envs @ env # later"] m(1) by simp
qed

lemma main_next_visit_returns:
  assumes "main lib a su envs = (evs1, st1, None)"
    and "snd (warmup_threshold (su_spectra su)) = Inr thr"
    and "visit lib a thr (visit_order (Suc (length envs)) ! length envs) env st1 = (evs2, st2, None)"
  shows "main lib a su (envs @ [env]) = (evs1 @ evs2, st2, None)"
proof -
  obtain pre ev4 where m: "evs1 = pre @ ev4"
    "scan_visits lib a thr (zip (visit_order (length envs)) envs) (initial_state\<lparr>tb := True\<rparr>)
           = (ev4, st1, None)"
    "\<And>envs'. main lib a su envs' =
           (case scan_loop lib a thr envs' (initial_state\<lparr>tb := True\<rparr>) of
              (e, s, r) \<Rightarrow> (pre @ e, s, r))"
    using main_running [OF assms(1,2)] by blast
  have "scan_visits lib a thr (zip (visit_order (length (envs @ env # []))) (envs @ env # []))
          (initial_state\<lparr>tb := True\<rparr>) = (ev4 @ evs2, st2, None)"
    unfolding zip_visit_order_next
    using scan_visits_append_None [OF m(2)] assms(3) by simp
  then have "scan_loop lib a thr (envs @ [env]) (initial_state\<lparr>tb := True\<rparr>) =
      (ev4 @ evs2, st2, None)"
    by (simp add: scan_loop_def)
  then show ?thesis
    using m(3) [of "envs @ [env]"] m(1) by simp
qed

section \<open>Detector bridge: filter correctness\<close>

lemma parse_rf_rows_acc:
  "parse_rf_rows msg c idx acc =
     acc @ map (\<lambda>i. (c + fst (msg ! i), snd (msg ! i))) (filter (\<lambda>i. snd (msg ! i) \<ge> MIN_BW_HZ) idx)"
  by (induction idx arbitrary: acc) (simp_all add: Let_def)

lemma parse_rf_rows_all:
  "parse_rf_rows msg c [0..<length msg] [] =
     map (\<lambda>r. (c + fst r, snd r)) (filter (\<lambda>r. snd r \<ge> MIN_BW_HZ) msg)"
proof -
  have "map (\<lambda>i. (c + fst (msg ! i), snd (msg ! i))) (filter (\<lambda>i. snd (msg ! i) \<ge> MIN_BW_HZ) [0..<length msg])
      = map (\<lambda>r. (c + fst r, snd r)) (filter (\<lambda>r. snd r \<ge> MIN_BW_HZ) (map ((!) msg) [0..<length msg]))"
    by (simp add: filter_map comp_def)
  then show ?thesis
    by (simp add: parse_rf_rows_acc map_nth)
qed

text \<open>
  C8. The report of the bridge holds exactly the reported pairs whose bandwidth is at
  least \<open>MIN_BW_HZ\<close> (4 MHz), in the order reported, each with the channel centre added
  to its offset; no returned pair is below the minimum; and with no message from the
  oracle (an empty message store) the report is empty.
\<close>

theorem parse_rf_map_filter_correct:
  "MIN_BW_HZ = 4000000
   \<and> parse_rf_map (Some rows) center_hz =
       map (\<lambda>r. (center_hz + fst r, snd r)) (filter (\<lambda>r. snd r \<ge> MIN_BW_HZ) rows)
   \<and> (\<forall>s \<in> set (parse_rf_map msg center_hz). snd s \<ge> MIN_BW_HZ)
   \<and> parse_rf_map None center_hz = []
   \<and> parse_rf_map (get_latest_map []) center_hz = []
   \<and> (msgs \<noteq> [] \<longrightarrow> get_latest_map msgs = Some (last msgs))"
proof -
  have some: "\<And>m. parse_rf_map (Some m) center_hz =
       map (\<lambda>r. (center_hz + fst r, snd r)) (filter (\<lambda>r. snd r \<ge> MIN_BW_HZ) m)"
    by (simp add: parse_rf_map_def parse_rf_rows_all)
  have none: "parse_rf_map None center_hz = []"
    by (simp add: parse_rf_map_def)
  have bound: "\<forall>s \<in> set (parse_rf_map msg center_hz). snd s \<ge> MIN_BW_HZ"
    by (cases msg) (auto simp: some none)
  have latest: "msgs \<noteq> [] \<longrightarrow> get_latest_map msgs = Some (last msgs)"
    by (simp add: get_latest_map_def Let_def last_conv_nth)
  show ?thesis
    using some none bound latest by (simp add: MIN_BW_HZ_def get_latest_map_def)
qed

theorem parse_rf_map_filter_correct_witness:
  "parse_rf_map (get_latest_map [[(200000, 4200000), (500000, 6000000), (100000, 3999999)]]) 5805000000
     = [(5805200000, 4200000), (5805500000, 6000000)]"
  using parse_rf_map_filter_correct
    [of "[(200000, 4200000), (500000, 6000000), (100000, 3999999)]" 5805000000 None
        "[[(200000, 4200000), (500000, 6000000), (100000, 3999999)]]"]
  by (simp add: MIN_BW_HZ_def)

section \<open>The confirmation subprocess never overlaps an open hardware session\<close>
















section \<open>Energy alerts carry zero scores\<close>

lemma start_tb_attempts_alert_ok:
  "\<forall>e \<in> set (fst (start_tb_attempts thr hw as)). alert_ok e"
proof (induction as)
  case Nil
  show ?case by simp
next
  case (Cons k as)
  then show ?case by (cases "hw k") (auto split: prod.splits)
qed

lemma warmup_threshold_alert_ok: "\<forall>e \<in> set (fst (warmup_threshold spectra)). alert_ok e"
  by (auto simp: warmup_threshold_def warmup_sweeps_eq tune_events_def)

lemma run_confirm_alert_ok: "\<forall>e \<in> set (fst (run_confirm lib hz outcome st)). alert_ok e"
  using run_confirm_events [of lib hz outcome st] by auto

lemma build_alert_energy_ok: "list_all energy_scores_zero (build_alert_messages st hz bw 0 0 src)"
  by (simp add: build_alert_messages_def split: option.splits)

lemma build_alert_confirm_ok: "list_all energy_scores_zero (build_alert_messages st hz bw p n ''confirm'')"
  by (simp add: build_alert_messages_def split: option.splits)

lemma confirm_cycle_alert_ok:
  "\<forall>e \<in> set (fst (confirm_cycle lib a thr mhz env s rest st)). alert_ok e"
proof -
  obtain chz cbw where m: "max_by_bw s rest = (chz, cbw)" by (cases "max_by_bw s rest")
  obtain e2 st2 r where rc: "run_confirm lib chz (v_proc env) (st\<lparr>tb := False\<rparr>) = (e2, st2, r)"
    by (cases "run_confirm lib chz (v_proc env) (st\<lparr>tb := False\<rparr>)")
  obtain e4 r4 where rt: "start_tb_with_retry thr (v_reopen env) = (e4, r4)"
    by (cases "start_tb_with_retry thr (v_reopen env)")
  have c2: "\<forall>e \<in> set e2. alert_ok e"
    using run_confirm_alert_ok [of lib chz "v_proc env" "st\<lparr>tb := False\<rparr>"] rc by simp
  have c4: "\<forall>e \<in> set e4. alert_ok e"
    using start_tb_attempts_alert_ok [of thr "v_reopen env" "[1..<REOPEN_RETRIES + 1]"] rt
    by (simp add: start_tb_with_retry_def)
  show ?thesis
    using c2 c4
    by (auto simp: confirm_cycle_def m rc rt Let_def publish_alert_def
                   announce_events_def release_events_def report_events_def
                   build_alert_energy_ok build_alert_confirm_ok
             split: sum.splits option.splits)
qed

lemma visit_alert_ok: "\<forall>e \<in> set (fst (visit lib a thr mhz env st)). alert_ok e"
proof (cases "poll_monitor_for_gps lib (if mon_sub a then Some (v_recv env) else None) st")
  case (Inl e)
  then show ?thesis by (simp add: visit_def)
next
  case (Inr st1)
  show ?thesis
  proof (cases "parse_rf_map (get_latest_map (v_maps env)) (real_of_int mhz * 1000000)")
    case Nil
    with Inr show ?thesis by (simp add: visit_def)
  next
    case (Cons s rest)
    show ?thesis
      using confirm_cycle_alert_ok [of lib a thr mhz env s rest st1] Inr Cons
      by (auto simp: visit_def split: prod.splits)
  qed
qed

lemma scan_visits_alert_ok: "\<forall>e \<in> set (fst (scan_visits lib a thr vs st)). alert_ok e"
proof (induction vs arbitrary: st)
  case Nil
  show ?case by simp
next
  case (Cons v vs)
  obtain mhz env where v: "v = (mhz, env)" by (cases v)
  obtain evs st1 r where vis: "visit lib a thr mhz env st = (evs, st1, r)"
    by (cases "visit lib a thr mhz env st")
  have e1: "\<forall>e \<in> set evs. alert_ok e"
    using visit_alert_ok [of lib a thr mhz env st] vis by simp
  show ?case
    using e1 v vis Cons.IH [of st1]
    by (cases r) (auto split: prod.splits)
qed

lemma scan_loop_alert_ok: "\<forall>e \<in> set (fst (scan_loop lib a thr envs st)). alert_ok e"
  using scan_visits_alert_ok [of lib a thr "zip (visit_order (length envs)) envs" st]
  by (auto simp: scan_loop_def split: prod.splits option.splits)

lemma start_tb_with_retry_alert_ok:
  "start_tb_with_retry thr hw = (evs, r) \<Longrightarrow> \<forall>e \<in> set evs. alert_ok e"
  using start_tb_attempts_alert_ok [of thr hw "[1..<REOPEN_RETRIES + 1]"]
  by (simp add: start_tb_with_retry_def)

lemma startup_events_alert_ok:
  "warmup_threshold spectra = (evw, r) \<Longrightarrow> \<forall>e \<in> set (startup_events a evw thr). alert_ok e"
  using warmup_threshold_alert_ok [of spectra] by (auto simp: startup_events_def)

lemma main_alert_ok: "\<forall>e \<in> set (fst (main lib a su envs)). alert_ok e"
proof (cases rule: main_cases [of lib a su envs])
  case (ctor e)
  then show ?thesis by simp
next
  case (first_start e)
  then show ?thesis by simp
next
  case (reopen_failed evw thr ev3 e)
  then show ?thesis
    using startup_events_alert_ok [of "su_spectra su" evw "Inr thr" a thr]
      start_tb_with_retry_alert_ok [of thr "su_reopen su" ev3 "Inl e"]
    by auto
next
  case (running evw thr ev3 ev4 st4 r4)
  then show ?thesis
    using startup_events_alert_ok [of "su_spectra su" evw "Inr thr" a thr]
      start_tb_with_retry_alert_ok [of thr "su_reopen su" ev3 "Inr ()"]
      scan_loop_alert_ok [of lib a thr envs "initial_state\<lparr>tb := True\<rparr>"]
    by auto
qed

text \<open>
  C10. In every trace of \<open>main\<close>, every published alert whose Signal Info part names
  the source \<open>energy\<close> carries \<open>pal_conf = 0\<close> and \<open>ntsc_conf = 0\<close> there.
\<close>

theorem energy_alert_scores_zero:
  "Publish parts \<in> set (fst (main lib a su envs))
   \<Longrightarrow> SignalInfo ''energy'' hz bw pal ntsc \<in> set parts
   \<Longrightarrow> pal = 0 \<and> ntsc = 0"
proof -
  assume p: "Publish parts \<in> set (fst (main lib a su envs))"
    and s: "SignalInfo ''energy'' hz bw pal ntsc \<in> set parts"
  have "alert_ok (Publish parts)"
    using main_alert_ok [of lib a su envs] p by blast
  then have "energy_scores_zero (SignalInfo ''energy'' hz bw pal ntsc)"
    using s by (auto simp: list_all_iff)
  then show ?thesis by simp
qed


theorem energy_alert_scores_zero_witness:
  "\<exists>parts hz bw pal ntsc.
     Publish parts \<in> set (fst (main example_lib example_args example_startup [example_visit]))
     \<and> SignalInfo ''energy'' hz bw pal ntsc \<in> set parts
     \<and> pal = 0 \<and> ntsc = 0"
proof -
  let ?parts = "[BasicID (9981 / 2), SelfID ''FPV alert (energy)'',
                 FrequencyMessage 4990500000, SignalInfo ''energy'' 4990500000 6000000 0 0]"
  have pub: "Publish ?parts \<in> set (fst (main example_lib example_args example_startup [example_visit]))"
    by code_simp
  have part: "SignalInfo ''energy'' 4990500000 6000000 0 0 \<in> set ?parts"
    by simp
  show ?thesis
    using energy_alert_scores_zero [OF pub part] pub part by blast
qed

section \<open>The confirmation breaker is sticky\<close>

lemma disabled_after_Nil: "disabled_after d [] = d"
  by (simp add: disabled_after_def)

lemma disabled_after_Cons: "disabled_after d (e # es) = disabled_after (d \<or> is_disable_warning e) es"
  by (auto simp: disabled_after_def)

lemma disabled_after_append: "disabled_after d (xs @ ys) = disabled_after (disabled_after d xs) ys"
  by (auto simp: disabled_after_def)

lemma breaker_from_append:
  "breaker_from d (xs @ ys) = (breaker_from d xs \<and> breaker_from (disabled_after d xs) ys)"
  by (induction xs arbitrary: d) (auto simp: disabled_after_def)

lemma breaker_from_neutral:
  "\<forall>e \<in> set evs. \<not> is_disable_warning e \<and> \<not> is_subprocess_run e \<Longrightarrow>
     breaker_from d evs \<and> disabled_after d evs = d"
  by (induction evs arbitrary: d) (auto simp: disabled_after_def)

lemma breaker_from_True:
  "breaker_from True evs \<Longrightarrow> \<forall>e \<in> set evs. \<not> is_disable_warning e \<and> \<not> is_subprocess_run e"
  by (induction evs) auto

lemma start_tb_attempts_neutral:
  "\<forall>e \<in> set (fst (start_tb_attempts thr hw as)). \<not> is_disable_warning e \<and> \<not> is_subprocess_run e"
proof (induction as)
  case Nil
  show ?case by simp
next
  case (Cons k as)
  then show ?case by (cases "hw k") (auto split: prod.splits)
qed

lemma start_tb_with_retry_breaker:
  "start_tb_with_retry thr hw = (evs, r) \<Longrightarrow> breaker_from d evs \<and> disabled_after d evs = d"
  using start_tb_attempts_neutral [of thr hw "[1..<REOPEN_RETRIES + 1]"] breaker_from_neutral [of evs d]
  by (simp add: start_tb_with_retry_def)

lemma warmup_threshold_events:
  "e \<in> set (fst (warmup_threshold spectra)) \<Longrightarrow> (\<exists>hz. e = SetCenter hz) \<or> (\<exists>d. e = Sleep d)"
  by (auto simp: warmup_threshold_def warmup_sweeps_eq tune_events_def split: if_splits)

lemma startup_events_breaker:
  "warmup_threshold spectra = (evw, r) \<Longrightarrow>
     breaker_from d (startup_events a evw thr) \<and> disabled_after d (startup_events a evw thr) = d"
proof -
  assume w: "warmup_threshold spectra = (evw, r)"
  have "\<forall>e \<in> set evw. \<not> is_disable_warning e \<and> \<not> is_subprocess_run e"
    using warmup_threshold_events [of _ spectra] w by fastforce
  then have "\<forall>e \<in> set (startup_events a evw thr). \<not> is_disable_warning e \<and> \<not> is_subprocess_run e"
    by (auto simp: startup_events_def)
  then show ?thesis by (rule breaker_from_neutral)
qed

lemma run_confirm_disabled:
  "confirm_disabled_reason st = Some r \<Longrightarrow> run_confirm lib hz outcome st = ([], st, Inr (None, None))"
  by (simp add: run_confirm_def)

lemma run_confirm_breaker:
  "run_confirm lib hz outcome st = (evs, st', res) \<Longrightarrow>
     breaker_from (confirm_disabled_reason st \<noteq> None) evs
     \<and> disabled_after (confirm_disabled_reason st \<noteq> None) evs = (confirm_disabled_reason st' \<noteq> None)
     \<and> (confirm_disabled_reason st \<noteq> None \<longrightarrow> confirm_disabled_reason st' = confirm_disabled_reason st)"
  by (auto simp: run_confirm_def disable_confirm_def disabled_after_def Let_def
           split: proc_outcome.splits if_splits)

lemma announce_events_neutral:
  "\<forall>e \<in> set (announce_events a mhz sigs st hz bw @ release_events).
      \<not> is_disable_warning e \<and> \<not> is_subprocess_run e"
  by (simp add: announce_events_def release_events_def publish_alert_def)

lemma report_events_neutral:
  "\<forall>e \<in> set (report_events a st hz bw res @ [Sleep COOLDOWN_S]).
      \<not> is_disable_warning e \<and> \<not> is_subprocess_run e"
proof -
  obtain p n where res: "res = (p, n)" by (cases res)
  show ?thesis
    by (cases p; cases n) (auto simp: res report_events_def publish_alert_def)
qed

lemma confirm_cycle_breaker:
  "confirm_cycle lib a thr mhz env s rest st = (evs, st', res) \<Longrightarrow>
     breaker_from (confirm_disabled_reason st \<noteq> None) evs
     \<and> disabled_after (confirm_disabled_reason st \<noteq> None) evs = (confirm_disabled_reason st' \<noteq> None)
     \<and> (confirm_disabled_reason st \<noteq> None \<longrightarrow> confirm_disabled_reason st' = confirm_disabled_reason st)"
proof -
  assume cc: "confirm_cycle lib a thr mhz env s rest st = (evs, st', res)"
  let ?d = "confirm_disabled_reason st \<noteq> None"
  obtain chz cbw where m: "max_by_bw s rest = (chz, cbw)" by (cases "max_by_bw s rest")
  obtain e2 st2 r where rc: "run_confirm lib chz (v_proc env) (st\<lparr>tb := False\<rparr>) = (e2, st2, r)"
    by (cases "run_confirm lib chz (v_proc env) (st\<lparr>tb := False\<rparr>)")
  obtain e4 r4 where rt: "start_tb_with_retry thr (v_reopen env) = (e4, r4)"
    by (cases "start_tb_with_retry thr (v_reopen env)")
  have c2: "breaker_from ?d e2" "disabled_after ?d e2 = (confirm_disabled_reason st2 \<noteq> None)"
      "?d \<longrightarrow> confirm_disabled_reason st2 = confirm_disabled_reason st"
    using run_confirm_breaker [OF rc] by simp_all
  have c4: "breaker_from d e4" "disabled_after d e4 = d" for d
    using start_tb_with_retry_breaker [OF rt, of d] by simp_all
  define pre where "pre = announce_events a mhz (s # rest) st chz cbw @ release_events"
  define rep where "rep = (\<lambda>x. report_events a st2 chz cbw x @ [Sleep COOLDOWN_S])"
  have n1: "breaker_from d pre" "disabled_after d pre = d" for d
    using breaker_from_neutral [OF announce_events_neutral] by (simp_all add: pre_def)
  have n3: "breaker_from d (rep x)" "disabled_after d (rep x) = d" for d x
    using breaker_from_neutral [OF report_events_neutral] by (simp_all add: rep_def)
  show ?thesis
  proof (cases r)
    case (Inl e)
    then have "evs = pre @ e2" "st' = st2"
      using cc by (simp_all add: confirm_cycle_def m rc Let_def pre_def)
    then show ?thesis
      using c2 by (simp add: breaker_from_append disabled_after_append n1)
  next
    case (Inr x)
    then have "evs = pre @ e2 @ rep x @ e4"
      "confirm_disabled_reason st' = confirm_disabled_reason st2"
      using cc by (auto simp: confirm_cycle_def m rc rt Let_def pre_def rep_def split: sum.splits)
    then show ?thesis
      using c2 by (simp add: breaker_from_append disabled_after_append n1 n3 c4)
  qed
qed

lemma poll_monitor_keeps_breaker:
  "poll_monitor_for_gps lib sock st = Inr st1 \<Longrightarrow>
     confirm_disabled_reason st1 = confirm_disabled_reason st \<and> tb st1 = tb st"
  by (auto simp: poll_monitor_for_gps_def and_then_def
           split: option.splits recv_outcome.splits sum.splits if_splits)

lemma visit_breaker:
  "visit lib a thr mhz env st = (evs, st', res) \<Longrightarrow>
     breaker_from (confirm_disabled_reason st \<noteq> None) evs
     \<and> disabled_after (confirm_disabled_reason st \<noteq> None) evs = (confirm_disabled_reason st' \<noteq> None)
     \<and> (confirm_disabled_reason st \<noteq> None \<longrightarrow> confirm_disabled_reason st' = confirm_disabled_reason st)"
proof -
  assume v: "visit lib a thr mhz env st = (evs, st', res)"
  show ?thesis
  proof (cases "poll_monitor_for_gps lib (if mon_sub a then Some (v_recv env) else None) st")
    case (Inl e)
    with v show ?thesis by (auto simp: visit_def disabled_after_Nil)
  next
    case (Inr st1)
    have k: "confirm_disabled_reason st1 = confirm_disabled_reason st"
      using poll_monitor_keeps_breaker [OF Inr] by simp
    show ?thesis
    proof (cases "parse_rf_map (get_latest_map (v_maps env)) (real_of_int mhz * 1000000)")
      case Nil
      with v Inr k show ?thesis
        by (auto simp: visit_def disabled_after_Cons disabled_after_Nil)
    next
      case (Cons s rest)
      obtain e' st2 r where cc: "confirm_cycle lib a thr mhz env s rest st1 = (e', st2, r)"
        by (cases "confirm_cycle lib a thr mhz env s rest st1")
      have ev: "evs = [SetCenter (real_of_int mhz * 1000000), Sleep SETTLE_S, Sleep DWELL_S] @ e'"
        and st: "st' = st2"
        using v Inr Cons cc by (simp_all add: visit_def)
      show ?thesis
        using confirm_cycle_breaker [OF cc] k
        by (simp add: ev st disabled_after_Cons)
    qed
  qed
qed

lemma scan_visits_breaker:
  "scan_visits lib a thr vs st = (evs, st', res) \<Longrightarrow>
     breaker_from (confirm_disabled_reason st \<noteq> None) evs
     \<and> disabled_after (confirm_disabled_reason st \<noteq> None) evs = (confirm_disabled_reason st' \<noteq> None)
     \<and> (confirm_disabled_reason st \<noteq> None \<longrightarrow> confirm_disabled_reason st' = confirm_disabled_reason st)"
proof (induction vs arbitrary: st evs st' res)
  case Nil
  then show ?case by (auto simp: disabled_after_Nil)
next
  case (Cons v vs)
  obtain mhz env where v: "v = (mhz, env)" by (cases v)
  obtain e1 st1 r1 where vis: "visit lib a thr mhz env st = (e1, st1, r1)"
    by (cases "visit lib a thr mhz env st")
  note b1 = visit_breaker [OF vis]
  show ?case
  proof (cases r1)
    case (Some e)
    with Cons.prems v vis have "evs = e1" "st' = st1" by simp_all
    with b1 show ?thesis by simp
  next
    case None
    obtain e2 st2 r2 where rest: "scan_visits lib a thr vs st1 = (e2, st2, r2)"
      by (cases "scan_visits lib a thr vs st1")
    have "evs = e1 @ e2" "st' = st2"
      using Cons.prems v vis None rest by simp_all
    then show ?thesis
      using b1 Cons.IH [OF rest]
      by (auto simp: breaker_from_append disabled_after_append)
  qed
qed

lemma scan_loop_breaker:
  "scan_loop lib a thr envs st = (evs, st', res) \<Longrightarrow>
     breaker_from (confirm_disabled_reason st \<noteq> None) evs
     \<and> disabled_after (confirm_disabled_reason st \<noteq> None) evs = (confirm_disabled_reason st' \<noteq> None)
     \<and> (confirm_disabled_reason st \<noteq> None \<longrightarrow> confirm_disabled_reason st' = confirm_disabled_reason st)"
proof -
  assume sl: "scan_loop lib a thr envs st = (evs, st', res)"
  obtain e1 st1 r1 where sv: "scan_visits lib a thr (zip (visit_order (length envs)) envs) st = (e1, st1, r1)"
    by (cases "scan_visits lib a thr (zip (visit_order (length envs)) envs) st")
  have "evs = e1 @ (if r1 \<noteq> None \<and> tb st1 then [HwStop, HwWait] else [])" "st' = st1"
    using sl sv by (auto simp: scan_loop_def split: option.splits)
  then show ?thesis
    using scan_visits_breaker [OF sv]
    by (auto simp: breaker_from_append disabled_after_append disabled_after_Cons disabled_after_Nil)
qed

lemma main_breaker:
  "main lib a su envs = (evs, st', res) \<Longrightarrow>
     breaker_from False evs \<and> disabled_after False evs = (confirm_disabled_reason st' \<noteq> None)"
proof -
  assume mn: "main lib a su envs = (evs, st', res)"
  show ?thesis
  proof (cases rule: main_cases [of lib a su envs])
    case (ctor e)
    with mn show ?thesis by (auto simp: initial_state_def disabled_after_Nil)
  next
    case (first_start e)
    with mn show ?thesis by (auto simp: initial_state_def disabled_after_Cons disabled_after_Nil)
  next
    case (reopen_failed evw thr ev3 e)
    then show ?thesis
      using mn startup_events_breaker [OF reopen_failed(1), of False a thr]
        start_tb_with_retry_breaker [OF reopen_failed(2), of False]
      by (auto simp: initial_state_def breaker_from_append disabled_after_append)
  next
    case (running evw thr ev3 ev4 st4 r4)
    then show ?thesis
      using mn startup_events_breaker [OF running(1), of False a thr]
        start_tb_with_retry_breaker [OF running(2), of False]
        scan_loop_breaker [OF running(3)]
      by (auto simp: initial_state_def breaker_from_append disabled_after_append)
  qed
qed

lemma breaker_from_split:
  "breaker_from False (pre @ e # post) \<Longrightarrow> is_disable_warning e \<Longrightarrow>
     (\<forall>x \<in> set pre. \<not> is_disable_warning x)
     \<and> (\<forall>x \<in> set post. \<not> is_disable_warning x \<and> \<not> is_subprocess_run x)"
proof -
  assume b: "breaker_from False (pre @ e # post)" and w: "is_disable_warning e"
  have "\<not> disabled_after False pre" "breaker_from True post"
    using b w by (auto simp: breaker_from_append)
  then show ?thesis
    using breaker_from_True [of post] by (auto simp: disabled_after_def)
qed

text \<open>
  C2. The breaker is sticky and the first reason wins. With the flag unset, a missing
  binary, or a non-zero exit with the text \<^verbatim>\<open>Unknown command\<close> or
  \<^verbatim>\<open>unknown command\<close> in the combined output, sets the flag, logs the warning
  once and returns \<open>(None, None)\<close>. With the flag set, \<open>disable_confirm\<close> changes nothing and logs nothing, and every
  \<open>run_confirm\<close> call, whatever the subprocess would do, returns \<open>(None, None)\<close> with
  no event at all (no subprocess, no log line) and the state unchanged. In every trace
  of \<open>main\<close> the disable warning occurs at most once, no subprocess call follows it,
  and it has occurred exactly when the flag of the state reached is set.
\<close>

theorem breaker_sticky:
  "(confirm_disabled_reason st = None \<longrightarrow>
      run_confirm lib hz FileNotFound st =
        ([SubprocessRun hz, SubprocessEnd, Print (WarnConfirmDisabled ''suscli not found in PATH'')],
         st\<lparr>confirm_disabled_reason := Some ''suscli not found in PATH''\<rparr>, Inr (None, None))
      \<and> (returncode \<noteq> 0 \<and> (contains ''Unknown command'' (out @ [CHR 0x0A] @ err)
                              \<or> contains ''unknown command'' (out @ [CHR 0x0A] @ err)) \<longrightarrow>
          run_confirm lib hz (Completed returncode out err) st =
            ([SubprocessRun hz, SubprocessEnd,
              Print (WarnConfirmDisabled ''suscli fpvdet command not available'')],
             st\<lparr>confirm_disabled_reason := Some ''suscli fpvdet command not available''\<rparr>,
             Inr (None, None))))
   \<and> (confirm_disabled_reason st = Some r \<longrightarrow>
        disable_confirm r' st = ([], st)
        \<and> run_confirm lib hz outcome st = ([], st, Inr (None, None)))
   \<and> (fst (main lib a su envs) = pre @ Print (WarnConfirmDisabled r) # post \<longrightarrow>
        (\<forall>e \<in> set pre. \<not> is_disable_warning e)
        \<and> (\<forall>e \<in> set post. \<not> is_disable_warning e \<and> \<not> is_subprocess_run e))
   \<and> ((confirm_disabled_reason (fst (snd (main lib a su envs))) \<noteq> None)
        = (\<exists>e \<in> set (fst (main lib a su envs)). is_disable_warning e))"
proof -
  have a0: "run_confirm lib hz FileNotFound st =
        ([SubprocessRun hz, SubprocessEnd, Print (WarnConfirmDisabled ''suscli not found in PATH'')],
         st\<lparr>confirm_disabled_reason := Some ''suscli not found in PATH''\<rparr>, Inr (None, None))
      \<and> (returncode \<noteq> 0 \<and> (contains ''Unknown command'' (out @ [CHR 0x0A] @ err)
                              \<or> contains ''unknown command'' (out @ [CHR 0x0A] @ err)) \<longrightarrow>
          run_confirm lib hz (Completed returncode out err) st =
            ([SubprocessRun hz, SubprocessEnd,
              Print (WarnConfirmDisabled ''suscli fpvdet command not available'')],
             st\<lparr>confirm_disabled_reason := Some ''suscli fpvdet command not available''\<rparr>,
             Inr (None, None)))"
    if "confirm_disabled_reason st = None"
    using that by (simp add: run_confirm_def disable_confirm_def SUSCLI_BIN_def Let_def)
  have a1: "disable_confirm r' st = ([], st) \<and> run_confirm lib hz outcome st = ([], st, Inr (None, None))"
    if "confirm_disabled_reason st = Some r"
    using that by (simp add: disable_confirm_def run_confirm_def)
  obtain evs st' res where mn: "main lib a su envs = (evs, st', res)"
    by (cases "main lib a su envs")
  have a2: "(\<forall>e \<in> set pre. \<not> is_disable_warning e)
        \<and> (\<forall>e \<in> set post. \<not> is_disable_warning e \<and> \<not> is_subprocess_run e)"
    if "fst (main lib a su envs) = pre @ Print (WarnConfirmDisabled r) # post"
    using main_breaker [OF mn] that mn
      breaker_from_split [of pre "Print (WarnConfirmDisabled r)" post]
    by simp
  have a3: "(confirm_disabled_reason (fst (snd (main lib a su envs))) \<noteq> None)
        = (\<exists>e \<in> set (fst (main lib a su envs)). is_disable_warning e)"
    using main_breaker [OF mn] mn by (simp add: disabled_after_def)
  show ?thesis using a0 a1 a2 a3 by blast
qed

theorem breaker_sticky_witness:
  "\<exists>pre post.
     fst (main example_lib example_args example_startup [example_visit, example_visit])
       = pre @ Print (WarnConfirmDisabled ''suscli not found in PATH'') # post
     \<and> list_all (\<lambda>e. \<not> is_disable_warning e \<and> \<not> is_subprocess_run e) post
     \<and> Print (ConfirmSkipped 5020500000) \<in> set post"
proof -
  let ?tr = "fst (main example_lib example_args example_startup [example_visit, example_visit])"
  have split: "?tr = take 196 ?tr @ Print (WarnConfirmDisabled ''suscli not found in PATH'') # drop 197 ?tr"
    by code_simp
  have second: "Print (ConfirmSkipped 5020500000) \<in> set (drop 197 ?tr)"
    by code_simp
  have "\<forall>e \<in> set (drop 197 ?tr). \<not> is_disable_warning e \<and> \<not> is_subprocess_run e"
    using breaker_sticky [where a = example_args and lib = example_lib and su = example_startup
        and envs = "[example_visit, example_visit]" and pre = "take 196 ?tr"
        and r = "''suscli not found in PATH''" and post = "drop 197 ?tr"] split
    by blast
  then have "list_all (\<lambda>e. \<not> is_disable_warning e \<and> \<not> is_subprocess_run e) (drop 197 ?tr)"
    by (simp add: list_all_iff)
  with split second show ?thesis by blast
qed

section \<open>Best-of-run reduction of the classifier output\<close>




section \<open>Calibrated threshold\<close>

lemma median_is_median_value: "xs \<noteq> [] \<Longrightarrow> median xs = Inr (median_value xs)"
  by (simp add: median_nonempty median_value_def Let_def odd_iff_mod_2_eq_one)

lemma warmup_medians_eq:
  "warmup_medians sp chans = map median_value (filter (\<lambda>spectrum. spectrum \<noteq> []) (map sp chans))"
  by (induction chans) (simp_all add: median_is_median_value)

lemma warmup_sweeps_medians:
  "snd (warmup_sweeps spectra [0..<WARMUP_SWEEPS] []) = recorded_medians spectra"
  by (simp add: warmup_sweeps_eq warmup_medians_eq recorded_medians_def map_concat filter_concat comp_def)

lemma sorted_below_count:
  "sorted s \<Longrightarrow> i < length s \<Longrightarrow> length (filter (\<lambda>x. x < s ! i) s) \<le> i"
proof -
  assume s: "sorted s" and i: "i < length s"
  have "\<forall>x \<in> set (drop i s). \<not> x < s ! i"
  proof
    fix x assume "x \<in> set (drop i s)"
    then obtain j where "j < length (drop i s)" "x = drop i s ! j"
      by (auto simp: in_set_conv_nth)
    then have "x = s ! (i + j)" "i + j < length s" by simp_all
    then have "s ! i \<le> x" using s by (simp add: sorted_nth_mono)
    then show "\<not> x < s ! i" by simp
  qed
  then have "filter (\<lambda>x. x < s ! i) (drop i s) = []"
    by (simp add: filter_empty_conv)
  then have "filter (\<lambda>x. x < s ! i) s = filter (\<lambda>x. x < s ! i) (take i s)"
    by (metis append_Nil2 append_take_drop_id filter_append)
  moreover have "length (filter (\<lambda>x. x < s ! i) (take i s)) \<le> length (take i s)"
    by (rule length_filter_le)
  ultimately show ?thesis using i by simp
qed

lemma sorted_above_count:
  "sorted s \<Longrightarrow> i < length s \<Longrightarrow> length (filter (\<lambda>x. s ! i < x) s) \<le> length s - Suc i"
proof -
  assume s: "sorted s" and i: "i < length s"
  have "\<forall>x \<in> set (take (Suc i) s). \<not> s ! i < x"
  proof
    fix x assume "x \<in> set (take (Suc i) s)"
    then obtain j where "j < length (take (Suc i) s)" "x = take (Suc i) s ! j"
      by (auto simp: in_set_conv_nth)
    then have "x = s ! j" "j \<le> i" by simp_all
    then have "x \<le> s ! i" using s i by (simp add: sorted_nth_mono)
    then show "\<not> s ! i < x" by simp
  qed
  then have "filter (\<lambda>x. s ! i < x) (take (Suc i) s) = []"
    by (simp add: filter_empty_conv)
  then have "filter (\<lambda>x. s ! i < x) s = filter (\<lambda>x. s ! i < x) (drop (Suc i) s)"
    by (metis append_Nil append_take_drop_id filter_append)
  moreover have "length (filter (\<lambda>x. s ! i < x) (drop (Suc i) s)) \<le> length (drop (Suc i) s)"
    by (rule length_filter_le)
  ultimately show ?thesis by simp
qed

lemma filter_length_mono:
  "(\<And>x. P x \<Longrightarrow> Q x) \<Longrightarrow> length (filter P xs) \<le> length (filter Q xs)"
  by (induction xs) auto

lemma filter_length_sort: "length (filter P (sort xs)) = length (filter P (xs::real list))"
  by (simp add: filter_sort)

lemma median_value_halves:
  assumes "xs \<noteq> []"
  shows "2 * length (filter (\<lambda>x. x < median_value xs) xs) \<le> length xs
       \<and> 2 * length (filter (\<lambda>x. median_value xs < x) xs) \<le> length xs"
proof -
  let ?s = "sort xs" and ?n = "length xs"
  have srt: "sorted ?s" and len: "length ?s = ?n" by simp_all
  have pos: "1 \<le> ?n" using assms by (cases xs) simp_all
  have half: "2 * (?n div 2) \<le> ?n" by simp
  show ?thesis
  proof (cases "odd ?n")
    case True
    then have mv: "median_value xs = ?s ! (?n div 2)"
      by (simp add: median_value_def Let_def)
    have i: "?n div 2 < length ?s" unfolding len using pos by arith
    have up: "?n - Suc (?n div 2) \<le> ?n div 2"
      using True by (auto elim!: oddE)
    have "length (filter (\<lambda>x. x < ?s ! (?n div 2)) xs) = length (filter (\<lambda>x. x < ?s ! (?n div 2)) ?s)"
      by (rule filter_length_sort [symmetric])
    also have "\<dots> \<le> ?n div 2"
      by (rule sorted_below_count [OF srt i])
    finally have lo: "length (filter (\<lambda>x. x < ?s ! (?n div 2)) xs) \<le> ?n div 2" .
    have "length (filter (\<lambda>x. ?s ! (?n div 2) < x) xs) = length (filter (\<lambda>x. ?s ! (?n div 2) < x) ?s)"
      by (rule filter_length_sort [symmetric])
    also have "\<dots> \<le> length ?s - Suc (?n div 2)"
      by (rule sorted_above_count [OF srt i])
    finally have hi: "length (filter (\<lambda>x. ?s ! (?n div 2) < x) xs) \<le> ?n div 2"
      using up by (simp only: len)
    show ?thesis
      unfolding mv using lo hi half by linarith
  next
    case False
    let ?a = "?s ! (?n div 2 - 1)" and ?b = "?s ! (?n div 2)"
    have mv: "median_value xs = (?a + ?b) / 2"
      using False by (simp add: median_value_def Let_def)
    have k: "?n div 2 < length ?s" "?n div 2 - 1 < length ?s" unfolding len using pos by arith+
    have up: "?n - Suc (?n div 2 - 1) \<le> ?n div 2"
      using False pos by (auto elim!: evenE)
    have ab: "?a \<le> ?b"
      using srt k by (simp add: sorted_nth_mono)
    have "length (filter (\<lambda>x. x < (?a + ?b) / 2) xs) = length (filter (\<lambda>x. x < (?a + ?b) / 2) ?s)"
      by (rule filter_length_sort [symmetric])
    also have "\<dots> \<le> length (filter (\<lambda>x. x < ?b) ?s)"
      using ab by (intro filter_length_mono) simp
    also have "\<dots> \<le> ?n div 2"
      by (rule sorted_below_count [OF srt k(1)])
    finally have lo: "length (filter (\<lambda>x. x < (?a + ?b) / 2) xs) \<le> ?n div 2" .
    have "length (filter (\<lambda>x. (?a + ?b) / 2 < x) xs) = length (filter (\<lambda>x. (?a + ?b) / 2 < x) ?s)"
      by (rule filter_length_sort [symmetric])
    also have "\<dots> \<le> length (filter (\<lambda>x. ?a < x) ?s)"
      using ab by (intro filter_length_mono) simp
    also have "\<dots> \<le> length ?s - Suc (?n div 2 - 1)"
      by (rule sorted_above_count [OF srt k(2)])
    finally have hi: "length (filter (\<lambda>x. (?a + ?b) / 2 < x) xs) \<le> ?n div 2"
      using up by (simp only: len)
    show ?thesis
      unfolding mv using lo hi half by linarith
  qed
qed

text \<open>
  C6. For all spectra read during the warm-up sweeps, the calibrated threshold is the
  median of the recorded per-channel medians plus 6 dB, where a channel whose spectrum
  is empty records nothing; with nothing recorded it is the static default of -90 dB.
  The median is that of \<^verbatim>\<open>statistics.median\<close>: it never fails on a list that is not
  empty, and at most half of the values lie below it and at most half above it.
\<close>

theorem calibrated_threshold:
  "THRESHOLD_DB = - 90 \<and> THRESHOLD_OFFSET_DB = 6
   \<and> snd (warmup_threshold spectra) =
       Inr (if recorded_medians spectra = [] then THRESHOLD_DB
            else median_value (recorded_medians spectra) + THRESHOLD_OFFSET_DB)
   \<and> (xs \<noteq> [] \<longrightarrow>
        median xs = Inr (median_value xs)
        \<and> 2 * length (filter (\<lambda>x. x < median_value xs) xs) \<le> length xs
        \<and> 2 * length (filter (\<lambda>x. median_value xs < x) xs) \<le> length xs)"
proof -
  obtain evs ms where w: "warmup_sweeps spectra [0..<WARMUP_SWEEPS] [] = (evs, ms)"
    by (cases "warmup_sweeps spectra [0..<WARMUP_SWEEPS] []")
  have ms: "ms = recorded_medians spectra"
    using warmup_sweeps_medians [of spectra] w by simp
  have thr: "snd (warmup_threshold spectra) =
       Inr (if recorded_medians spectra = [] then THRESHOLD_DB
            else median_value (recorded_medians spectra) + THRESHOLD_OFFSET_DB)"
    using w ms by (simp add: warmup_threshold_def median_is_median_value and_then_def)
  show ?thesis
    using thr median_is_median_value [of xs] median_value_halves [of xs]
    by (simp add: THRESHOLD_DB_def THRESHOLD_OFFSET_DB_def)
qed

theorem calibrated_threshold_witness:
  "recorded_medians example_spectra = [- 95, - 93, - 94]
   \<and> snd (warmup_threshold example_spectra) = Inr (- 88)"
proof -
  have r: "recorded_medians example_spectra = [- 95, - 93, - 94]"
    by code_simp
  have m: "median_value [- 95, - 93, - 94] = - 94"
    by code_simp
  show ?thesis
    using calibrated_threshold [of example_spectra]
    by (simp add: r m)
qed

section \<open>Location poll\<close>

lemma is_valid_latlon_range:
  "is_valid_latlon lib lat lon = Inr True \<Longrightarrow> py_float lib lat = Inr la \<Longrightarrow> py_float lib lon = Inr lo \<Longrightarrow>
     - 90 \<le> la \<and> la \<le> 90 \<and> - 180 \<le> lo \<and> lo \<le> 180"
  by (auto simp: is_valid_latlon_def and_then_def split: if_splits sum.splits)

lemma and_then_InrE:
  assumes "and_then m f = Inr y"
  obtains x where "m = Inr x" and "f x = Inr y"
  using assms by (cases m) (simp_all add: and_then_def)

lemma poll_stores_valid_or_keeps:
  assumes p: "poll_monitor_for_gps lib sock st = Inr st'"
  shows "st' = st \<or> (\<exists>la lo al. - 90 \<le> la \<and> la \<le> 90 \<and> - 180 \<le> lo \<and> lo \<le> 180
                    \<and> st' = st\<lparr>last_sensor_gps := Some (la, lo, al)\<rparr>)"
proof (cases "\<exists>msg payload. sock = Some (Received msg) \<and> json_loads lib msg = Inr payload")
  case False
  then show ?thesis
    using p
    by (auto simp: poll_monitor_for_gps_def split: option.splits recv_outcome.splits sum.splits if_splits)
next
  case True
  then obtain msg payload where m: "sock = Some (Received msg)" "json_loads lib msg = Inr payload"
    by blast
  have "and_then (py_get payload ''lat'' JNull) (\<lambda>lat.
        and_then (py_get payload ''lon'' JNull) (\<lambda>lon.
        and_then (py_get payload ''alt'' (JFloat 0)) (\<lambda>alt.
        and_then (is_valid_latlon lib lat lon) (\<lambda>valid.
          if valid then
            and_then (py_float lib lat) (\<lambda>la.
            and_then (py_float lib lon) (\<lambda>lo.
            and_then (py_float lib alt) (\<lambda>al.
              Inr (st\<lparr>last_sensor_gps := Some (la, lo, al)\<rparr>))))
          else Inr st)))) = Inr st'"
    using p m by (simp add: poll_monitor_for_gps_def)
  then obtain lat lon alt valid where
    v: "is_valid_latlon lib lat lon = Inr valid"
    and r: "(if valid then
            and_then (py_float lib lat) (\<lambda>la.
            and_then (py_float lib lon) (\<lambda>lo.
            and_then (py_float lib alt) (\<lambda>al.
              Inr (st\<lparr>last_sensor_gps := Some (la, lo, al)\<rparr>))))
          else Inr st) = Inr st'"
    by (elim and_then_InrE) blast
  show ?thesis
  proof (cases valid)
    case False
    with r show ?thesis by simp
  next
    case True
    with r obtain la lo al where
      f: "py_float lib lat = Inr la" "py_float lib lon = Inr lo"
      and s: "Inr (st\<lparr>last_sensor_gps := Some (la, lo, al)\<rparr>) = (Inr st' :: py_error + state)"
      by (simp only: if_True) (elim and_then_InrE, blast)
    have "- 90 \<le> la \<and> la \<le> 90 \<and> - 180 \<le> lo \<and> lo \<le> 180"
      using is_valid_latlon_range [of lib lat lon la lo] v True f by simp
    with s show ?thesis by auto
  qed
qed

text \<open>The examples of the specification: a latitude of 95 leaves the location as it
  was, the fix (45, -120, 100) is stored, and text that is no JSON is ignored.\<close>

lemma poll_claim_examples:
  "poll_monitor_for_gps example_lib (Some (Received out_of_range_message)) st = Inr st
   \<and> poll_monitor_for_gps example_lib (Some (Received valid_fix_message)) st
       = Inr (st\<lparr>last_sensor_gps := Some (45, - 120, 100)\<rparr>)
   \<and> poll_monitor_for_gps example_lib (Some (Received ''not json'')) st = Inr st"
  by (simp add: poll_monitor_for_gps_def example_lib_def out_of_range_message_def
        valid_fix_message_def and_then_def py_get_def is_valid_latlon_def is_number_def py_float_def)

text \<open>
  C9. The location poll is to store a new fix or leave the location unchanged, and never
  to raise, whatever the message. The code does so for text that is no JSON, for
  missing fields and for a latitude or longitude that is no number or is out of range
  (\<open>poll_stores_valid_or_keeps\<close> bounds every stored fix). It raises where the guard
  is missing: a valid latitude and longitude with a null altitude reach
  \<^verbatim>\<open>float(alt)\<close>, a \<^verbatim>\<open>TypeError\<close>, and JSON that is no object has no \<^verbatim>\<open>get\<close>, an
  \<^verbatim>\<open>AttributeError\<close>; \<^verbatim>\<open>main\<close> catches neither, and the process ends.
\<close>

theorem poll_raises_on_null_altitude:
  "poll_monitor_for_gps example_lib (Some (Received alt_null_message)) initial_state = Inl TypeError
   \<and> poll_monitor_for_gps example_lib (Some (Received array_message)) initial_state = Inl AttributeError
   \<and> snd (snd (main example_lib example_args example_startup
                   [example_visit\<lparr>v_recv := Received alt_null_message\<rparr>])) = Some TypeError"
  by code_simp

section \<open>Bounded retry of the reopen\<close>

lemma start_tb_attempts_all_fail:
  "\<forall>k \<in> set as. hw k = StartRaises (RuntimeError (m k)) \<Longrightarrow>
     start_tb_attempts thr hw as =
       (concat (map (\<lambda>k. failed_attempt_events thr k (RuntimeError (m k))) as), Inl reopen_failure)"
  by (induction as) (simp_all add: failed_attempt_events_def reopen_failure_def is_runtime_error_def)

lemma start_tb_attempts_then_ok:
  "\<forall>k \<in> set as. hw k = StartRaises (RuntimeError (m k)) \<Longrightarrow> hw n = StartOk \<Longrightarrow>
     start_tb_attempts thr hw (as @ n # bs) =
       (concat (map (\<lambda>k. failed_attempt_events thr k (RuntimeError (m k))) as) @ [HwConstruct thr, HwStart],
        Inr ())"
  by (induction as) (simp_all add: failed_attempt_events_def is_runtime_error_def)

lemma retry_exhausted:
  assumes "\<forall>k \<in> {1..5}. hw k = StartRaises (RuntimeError (m k))"
  shows "start_tb_with_retry thr hw =
       (concat (map (\<lambda>k. failed_attempt_events thr k (RuntimeError (m k))) [1, 2, 3, 4, 5]),
        Inl reopen_failure)"
proof -
  have idx: "[1..<REOPEN_RETRIES + 1] = [1, 2, 3, 4, 5]"
    by (simp add: REOPEN_RETRIES_def upt_rec)
  have "\<forall>k \<in> set [1, 2, 3, 4, 5::nat]. hw k = StartRaises (RuntimeError (m k))"
    using assms by simp
  then show ?thesis
    unfolding start_tb_with_retry_def idx by (rule start_tb_attempts_all_fail)
qed

lemma retry_succeeds:
  assumes "1 \<le> n" "n \<le> 5" "\<forall>k \<in> {1..<n}. hw k = StartRaises (RuntimeError (m k))" "hw n = StartOk"
  shows "start_tb_with_retry thr hw =
       (concat (map (\<lambda>k. failed_attempt_events thr k (RuntimeError (m k))) [1..<n]) @ [HwConstruct thr, HwStart],
        Inr ())"
proof -
  have "n = 1 \<or> n = 2 \<or> n = 3 \<or> n = 4 \<or> n = 5"
    using assms(1,2) by arith
  then have "[1..<REOPEN_RETRIES + 1] = [1..<n] @ n # [Suc n..<6]"
    by (auto simp: REOPEN_RETRIES_def upt_rec)
  moreover have "\<forall>k \<in> set [1..<n]. hw k = StartRaises (RuntimeError (m k))"
    using assms(3) by simp
  ultimately show ?thesis
    unfolding start_tb_with_retry_def using start_tb_attempts_then_ok [of "[1..<n]" hw m n thr] assms(4)
    by simp
qed


lemma start_tb_attempts_prefix:
  "\<forall>k \<in> set as. hw k = StartRaises (RuntimeError (m k)) \<Longrightarrow>
     start_tb_attempts thr hw (as @ bs) =
       (concat (map (\<lambda>k. failed_attempt_events thr k (RuntimeError (m k))) as)
          @ fst (start_tb_attempts thr hw bs),
        snd (start_tb_attempts thr hw bs))"
  by (induction as) (simp_all add: failed_attempt_events_def is_runtime_error_def split: prod.splits)

lemma leading_failures:
  "\<exists>n \<le> N. (\<forall>k \<in> {1..n}. P k) \<and> (n = N \<or> \<not> P (Suc n))"
proof (induction N)
  case 0
  show ?case by simp
next
  case (Suc N)
  then obtain n where n: "n \<le> N" "\<forall>k \<in> {1..n}. P k" "n = N \<or> \<not> P (Suc n)"
    by blast
  show ?case
  proof (cases "n = N \<and> P (Suc N)")
    case True
    then have "\<forall>k \<in> {1..Suc N}. P k"
      using n(2) by (auto simp: le_Suc_eq)
    then show ?thesis by blast
  next
    case False
    then have "n \<le> Suc N \<and> (\<forall>k \<in> {1..n}. P k) \<and> (n = Suc N \<or> \<not> P (Suc n))"
      using n by auto
    then show ?thesis by blast
  qed
qed

lemma upt_split_at:
  "n < 5 \<Longrightarrow> [1..<REOPEN_RETRIES + 1] = [1..<Suc n] @ Suc n # [Suc (Suc n)..<6]"
proof -
  assume "n < 5"
  then have "n = 0 \<or> n = 1 \<or> n = 2 \<or> n = 3 \<or> n = 4" by arith
  then show ?thesis
    by (auto simp: REOPEN_RETRIES_def upt_rec)
qed

lemma retry_shape:
  "\<exists>n m. n \<le> 5 \<and> (\<forall>k \<in> {1..n}. hw k = StartRaises (RuntimeError (m k)))
     \<and> ((n = 5 \<and> start_tb_with_retry thr hw =
            (concat (map (\<lambda>k. failed_attempt_events thr k (RuntimeError (m k))) [1..<Suc n]),
             Inl reopen_failure))
        \<or> (n < 5 \<and> hw (Suc n) = StartOk \<and> start_tb_with_retry thr hw =
            (concat (map (\<lambda>k. failed_attempt_events thr k (RuntimeError (m k))) [1..<Suc n])
               @ [HwConstruct thr, HwStart], Inr ()))
        \<or> (n < 5 \<and> (\<exists>e. hw (Suc n) = CtorRaises e \<and> start_tb_with_retry thr hw =
            (concat (map (\<lambda>k. failed_attempt_events thr k (RuntimeError (m k))) [1..<Suc n]),
             Inl e)))
        \<or> (n < 5 \<and> (\<exists>e. hw (Suc n) = StartRaises e \<and> \<not> is_runtime_error e
              \<and> start_tb_with_retry thr hw =
            (concat (map (\<lambda>k. failed_attempt_events thr k (RuntimeError (m k))) [1..<Suc n])
               @ [HwConstruct thr], Inl e))))"
proof -
  let ?P = "\<lambda>k. \<exists>x. hw k = StartRaises (RuntimeError x)"
  obtain n where n: "n \<le> 5" "\<forall>k \<in> {1..n}. ?P k" "n = 5 \<or> \<not> ?P (Suc n)"
    using leading_failures [of 5 ?P] by blast
  define m where "m = (\<lambda>k. SOME x. hw k = StartRaises (RuntimeError x))"
  have fails: "\<forall>k \<in> {1..n}. hw k = StartRaises (RuntimeError (m k))"
  proof
    fix k assume "k \<in> {1..n}"
    then have "?P k" using n(2) by blast
    then show "hw k = StartRaises (RuntimeError (m k))"
      unfolding m_def by (rule someI_ex)
  qed
  let ?F = "concat (map (\<lambda>k. failed_attempt_events thr k (RuntimeError (m k))) [1..<Suc n])"
  have pre: "\<forall>k \<in> set [1..<Suc n]. hw k = StartRaises (RuntimeError (m k))"
    using fails by auto
  show ?thesis
  proof (cases "n = 5")
    case True
    have "[1..<REOPEN_RETRIES + 1] = [1..<Suc n]"
      using True by (simp add: REOPEN_RETRIES_def)
    then have "start_tb_with_retry thr hw = (?F, Inl reopen_failure)"
      using start_tb_attempts_all_fail [OF pre, of thr] by (simp add: start_tb_with_retry_def)
    with True n(1) fails show ?thesis by blast
  next
    case False
    then have lt: "n < 5" and notP: "\<not> ?P (Suc n)" using n by auto
    have split: "start_tb_with_retry thr hw =
        (?F @ fst (start_tb_attempts thr hw (Suc n # [Suc (Suc n)..<6])),
         snd (start_tb_attempts thr hw (Suc n # [Suc (Suc n)..<6])))"
      unfolding start_tb_with_retry_def upt_split_at [OF lt]
      by (rule start_tb_attempts_prefix [OF pre])
    show ?thesis
    proof (cases "hw (Suc n)")
      case (CtorRaises e)
      then have "start_tb_with_retry thr hw = (?F, Inl e)"
        using split by simp
      with lt n(1) fails CtorRaises show ?thesis by blast
    next
      case StartOk
      then have "start_tb_with_retry thr hw = (?F @ [HwConstruct thr, HwStart], Inr ())"
        using split by simp
      with lt n(1) fails StartOk show ?thesis by blast
    next
      case (StartRaises e)
      then have nr: "\<not> is_runtime_error e"
        using notP by (cases e) (simp_all add: is_runtime_error_def)
      then have "start_tb_with_retry thr hw = (?F @ [HwConstruct thr], Inl e)"
        using split StartRaises by simp
      with lt n(1) fails StartRaises nr show ?thesis by blast
    qed
  qed
qed

lemma scan_visits_raised_append:
  "scan_visits lib a thr vs st = (evs, st', Some e) \<Longrightarrow>
     scan_visits lib a thr (vs @ later) st = (evs, st', Some e)"
proof (induction vs arbitrary: st evs)
  case Nil
  then show ?case by simp
next
  case (Cons v vs)
  obtain mhz env where v: "v = (mhz, env)" by (cases v)
  obtain e1 st1 r1 where vis: "visit lib a thr mhz env st = (e1, st1, r1)"
    by (cases "visit lib a thr mhz env st")
  show ?case
  proof (cases r1)
    case (Some x)
    with Cons.prems v vis show ?thesis by simp
  next
    case None
    obtain e2 st2 r2 where rest: "scan_visits lib a thr vs st1 = (e2, st2, r2)"
      by (cases "scan_visits lib a thr vs st1")
    have r2: "r2 = Some e" "evs = e1 @ e2" "st' = st2"
      using Cons.prems v vis None rest by simp_all
    have "scan_visits lib a thr (vs @ later) st1 = (e2, st2, Some e)"
      using Cons.IH [of st1 e2] rest r2 by simp
    then show ?thesis
      using v vis None r2 by simp
  qed
qed

lemma scan_loop_raised_append:
  "scan_loop lib a thr envs st = (evs, st', Some e) \<Longrightarrow>
     scan_loop lib a thr (envs @ later) st = (evs, st', Some e)"
proof -
  assume sl: "scan_loop lib a thr envs st = (evs, st', Some e)"
  let ?vs = "zip (visit_order (length envs)) envs"
  obtain e1 st1 r1 where sv: "scan_visits lib a thr ?vs st = (e1, st1, r1)"
    by (cases "scan_visits lib a thr ?vs st")
  have r1: "r1 = Some e" "st' = st1" "evs = e1 @ (if tb st1 then [HwStop, HwWait] else [])"
    using sl sv by (auto simp: scan_loop_def split: option.splits)
  have z: "zip (visit_order (length (envs @ later))) (envs @ later)
         = ?vs @ zip (drop (length envs) (visit_order (length envs + length later))) later"
    by (simp add: zip_append2 visit_order_prefix)
  have "scan_visits lib a thr (zip (visit_order (length (envs @ later))) (envs @ later)) st = (e1, st1, Some e)"
    unfolding z using scan_visits_raised_append [of lib a thr ?vs st e1 st1 e] sv r1 by simp
  then show ?thesis
    using r1 by (simp add: scan_loop_def)
qed

lemma main_raised_append:
  "main lib a su envs = (evs, st, Some e) \<Longrightarrow> main lib a su (envs @ later) = (evs, st, Some e)"
proof -
  assume mn: "main lib a su envs = (evs, st, Some e)"
  show ?thesis
  proof (cases "su_first_open su")
    case (CtorRaises x)
    with mn show ?thesis by (simp add: main_def)
  next
    case (StartRaises x)
    with mn show ?thesis by (simp add: main_def)
  next
    case StartOk
    obtain evw thr where w: "warmup_threshold (su_spectra su) = (evw, Inr thr)"
      using warmup_threshold_returns [of "su_spectra su"]
      by (cases "warmup_threshold (su_spectra su)") auto
    obtain ev3 r3 where rt: "start_tb_with_retry thr (su_reopen su) = (ev3, r3)"
      by (cases "start_tb_with_retry thr (su_reopen su)")
    show ?thesis
    proof (cases r3)
      case (Inl x)
      with mn StartOk w rt show ?thesis
        by (simp add: main_def WARMUP_SWEEPS_def AUTO_THRESHOLD_def)
    next
      case (Inr u)
      obtain ev4 st4 r4 where sl: "scan_loop lib a thr envs (initial_state\<lparr>tb := True\<rparr>) = (ev4, st4, r4)"
        by (cases "scan_loop lib a thr envs (initial_state\<lparr>tb := True\<rparr>)")
      have r4: "r4 = Some e" "st = st4"
        using mn StartOk w rt Inr sl by (simp_all add: main_def WARMUP_SWEEPS_def AUTO_THRESHOLD_def)
      have "scan_loop lib a thr (envs @ later) (initial_state\<lparr>tb := True\<rparr>) = (ev4, st4, Some e)"
        using scan_loop_raised_append [of lib a thr envs _ ev4 st4 e later] sl r4 by simp
      then show ?thesis
        using mn StartOk w rt Inr sl
        by (simp add: main_def WARMUP_SWEEPS_def AUTO_THRESHOLD_def)
    qed
  qed
qed

lemma run_confirm_keeps_tb:
  "run_confirm lib hz outcome st = (evs, st', r) \<Longrightarrow> tb st' = tb st"
  by (auto simp: run_confirm_def disable_confirm_def Let_def split: proc_outcome.splits if_splits)

lemma main_reopen_after_warmup_fatal:
  assumes "su_first_open su = StartOk"
    and "snd (warmup_threshold (su_spectra su)) = Inr thr"
    and "start_tb_with_retry thr (su_reopen su) = (ev3, Inl e)"
  shows "\<exists>pre. main lib a su envs = (pre @ ev3, initial_state\<lparr>tb := False\<rparr>, Some e)"
proof -
  obtain evw where w: "warmup_threshold (su_spectra su) = (evw, Inr thr)"
    using assms(2) by (cases "warmup_threshold (su_spectra su)") simp
  have "main lib a su envs = (startup_events a evw thr @ ev3, initial_state\<lparr>tb := False\<rparr>, Some e)"
    using assms(1,3) w
    by (simp add: main_def startup_events_def WARMUP_SWEEPS_def AUTO_THRESHOLD_def)
  then show ?thesis by blast
qed

lemma main_reopen_in_loop_fatal:
  assumes "main lib a su envs = (evs1, st1, None)"
    and "snd (warmup_threshold (su_spectra su)) = Inr thr"
    and "mhz = visit_order (Suc (length envs)) ! length envs"
    and "poll_monitor_for_gps lib (if mon_sub a then Some (v_recv env) else None) st1 = Inr st1'"
    and "parse_rf_map (get_latest_map (v_maps env)) (real_of_int mhz * 1000000) = s # rest"
    and "run_confirm lib (fst (max_by_bw s rest)) (v_proc env) (st1'\<lparr>tb := False\<rparr>) = (e2, st2, Inr res)"
    and "start_tb_with_retry thr (v_reopen env) = (ev4, Inl e)"
  shows "\<exists>pre. main lib a su (envs @ env # later) = (evs1 @ pre @ ev4, st2, Some e)"
proof -
  obtain chz cbw where mx: "max_by_bw s rest = (chz, cbw)" by (cases "max_by_bw s rest")
  have tb2: "\<not> tb st2"
    using run_confirm_keeps_tb [OF assms(6)] by simp
  define pre where "pre = [SetCenter (real_of_int mhz * 1000000), Sleep SETTLE_S, Sleep DWELL_S]
      @ announce_events a mhz (s # rest) st1' chz cbw @ release_events @ e2
      @ report_events a st2 chz cbw res @ [Sleep COOLDOWN_S]"
  have cyc: "confirm_cycle lib a thr mhz env s rest st1' =
      (announce_events a mhz (s # rest) st1' chz cbw @ release_events @ e2
        @ report_events a st2 chz cbw res @ [Sleep COOLDOWN_S] @ ev4, st2, Some e)"
    using mx assms(6,7) by (simp add: confirm_cycle_def Let_def)
  have vis: "visit lib a thr mhz env st1 = (pre @ ev4, st2, Some e)"
    using assms(4,5) cyc by (simp add: visit_def Let_def pre_def)
  have "main lib a su (envs @ env # later) =
      (evs1 @ (pre @ ev4) @ (if tb st2 then [HwStop, HwWait] else []), st2, Some e)"
    using main_next_visit_raises [OF assms(1,2), of env "pre @ ev4" st2 e later] vis assms(3)
    by simp
  then show ?thesis using tb2 by auto
qed

text \<open>
  C3 (amended). The reopen \<^verbatim>\<open>start_tb_with_retry\<close> makes at most 5 attempts, whatever
  the hardware does: some number \<open>n \<le> 5\<close> of attempts fail with a \<^verbatim>\<open>RuntimeError\<close> of
  \<^verbatim>\<open>tb.start()\<close>, each followed by stop, wait, a warning and a sleep of 2 seconds, and
  then either \<open>n = 5\<close> and the function raises
  \<^verbatim>\<open>RuntimeError("failed to reopen SDR after retries")\<close>, or attempt \<open>n + 1\<close> succeeds and
  the function returns, or attempt \<open>n + 1\<close> raises in the constructor or raises another
  exception in \<^verbatim>\<open>tb.start()\<close> and the function raises it at once. When \<^verbatim>\<open>tb.start()\<close>
  raises \<^verbatim>\<open>RuntimeError\<close> on all 5 attempts the retries are exhausted, and that is fatal
  at both call sites: after the warm-up, and after a confirmation on any visit of the
  scan loop, \<^verbatim>\<open>main\<close> ends with that exception, its trace ending with the events of the
  fifth attempt, whatever inputs would follow. A run of \<^verbatim>\<open>main\<close> that an exception has
  ended is not continued by any later input. The first open of \<^verbatim>\<open>main\<close> is a single
  attempt: when its \<^verbatim>\<open>tb.start()\<close> raises, the process ends at once with that exception.
\<close>

theorem reopen_retry_bounded_fatal:
  "REOPEN_RETRIES = 5 \<and> REOPEN_DELAY_S = 2
   \<and> (\<exists>n m'. n \<le> 5 \<and> (\<forall>k \<in> {1..n}. hw' k = StartRaises (RuntimeError (m' k)))
        \<and> ((n = 5 \<and> start_tb_with_retry thr hw' =
               (concat (map (\<lambda>k. failed_attempt_events thr k (RuntimeError (m' k))) [1..<Suc n]),
                Inl reopen_failure))
           \<or> (n < 5 \<and> hw' (Suc n) = StartOk \<and> start_tb_with_retry thr hw' =
               (concat (map (\<lambda>k. failed_attempt_events thr k (RuntimeError (m' k))) [1..<Suc n])
                  @ [HwConstruct thr, HwStart], Inr ()))
           \<or> (n < 5 \<and> (\<exists>e. hw' (Suc n) = CtorRaises e \<and> start_tb_with_retry thr hw' =
               (concat (map (\<lambda>k. failed_attempt_events thr k (RuntimeError (m' k))) [1..<Suc n]),
                Inl e)))
           \<or> (n < 5 \<and> (\<exists>e. hw' (Suc n) = StartRaises e \<and> \<not> is_runtime_error e
                 \<and> start_tb_with_retry thr hw' =
               (concat (map (\<lambda>k. failed_attempt_events thr k (RuntimeError (m' k))) [1..<Suc n])
                  @ [HwConstruct thr], Inl e)))))
   \<and> ((\<forall>k \<in> {1..5}. hw k = StartRaises (RuntimeError (m k))) \<longrightarrow>
        start_tb_with_retry thr hw =
          (concat (map (\<lambda>k. failed_attempt_events thr k (RuntimeError (m k))) [1, 2, 3, 4, 5]),
           Inl reopen_failure)
        \<and> (su_reopen su = hw \<and> su_first_open su = StartOk
             \<and> snd (warmup_threshold (su_spectra su)) = Inr thr \<longrightarrow>
            (\<exists>pre. main lib a su envs =
              (pre @ concat (map (\<lambda>k. failed_attempt_events thr k (RuntimeError (m k))) [1, 2, 3, 4, 5]),
               initial_state\<lparr>tb := False\<rparr>, Some reopen_failure)))
        \<and> (v_reopen env = hw
             \<and> main lib a su envs = (evs1, st1, None)
             \<and> snd (warmup_threshold (su_spectra su)) = Inr thr
             \<and> mhz = visit_order (Suc (length envs)) ! length envs
             \<and> poll_monitor_for_gps lib (if mon_sub a then Some (v_recv env) else None) st1 = Inr st1'
             \<and> parse_rf_map (get_latest_map (v_maps env)) (real_of_int mhz * 1000000) = s # rest
             \<and> run_confirm lib (fst (max_by_bw s rest)) (v_proc env) (st1'\<lparr>tb := False\<rparr>)
                 = (e2, st2, Inr res) \<longrightarrow>
            (\<exists>pre. main lib a su (envs @ env # later) =
              (evs1 @ pre
                 @ concat (map (\<lambda>k. failed_attempt_events thr k (RuntimeError (m k))) [1, 2, 3, 4, 5]),
               st2, Some reopen_failure))))
   \<and> (1 \<le> n \<and> n \<le> 5 \<and> (\<forall>k \<in> {1..<n}. hw k = StartRaises (RuntimeError (m k))) \<and> hw n = StartOk \<longrightarrow>
        start_tb_with_retry thr hw =
          (concat (map (\<lambda>k. failed_attempt_events thr k (RuntimeError (m k))) [1..<n])
             @ [HwConstruct thr, HwStart], Inr ()))
   \<and> (main lib a su envs = (evs, st', Some e) \<longrightarrow> main lib a su (envs @ later) = (evs, st', Some e))
   \<and> (su_first_open su = StartRaises e \<longrightarrow>
        main lib a su envs = ([HwConstruct THRESHOLD_DB], initial_state\<lparr>tb := True\<rparr>, Some e))"
proof -
  have c: "REOPEN_RETRIES = 5 \<and> REOPEN_DELAY_S = 2"
    by (simp add: REOPEN_RETRIES_def REOPEN_DELAY_S_def)
  have first: "su_first_open su = StartRaises e \<longrightarrow>
        main lib a su envs = ([HwConstruct THRESHOLD_DB], initial_state\<lparr>tb := True\<rparr>, Some e)"
    by (simp add: main_def)
  note shape = retry_shape [of hw' thr]
  have ex: "start_tb_with_retry thr hw =
          (concat (map (\<lambda>k. failed_attempt_events thr k (RuntimeError (m k))) [1, 2, 3, 4, 5]),
           Inl reopen_failure)"
    if "\<forall>k \<in> {1..5}. hw k = StartRaises (RuntimeError (m k))"
    using retry_exhausted [OF that] .
  have warm: "\<exists>pre. main lib a su envs =
              (pre @ concat (map (\<lambda>k. failed_attempt_events thr k (RuntimeError (m k))) [1, 2, 3, 4, 5]),
               initial_state\<lparr>tb := False\<rparr>, Some reopen_failure)"
    if "\<forall>k \<in> {1..5}. hw k = StartRaises (RuntimeError (m k))"
      "su_reopen su = hw" "su_first_open su = StartOk"
      "snd (warmup_threshold (su_spectra su)) = Inr thr"
    using main_reopen_after_warmup_fatal [OF that(3,4), of _ reopen_failure lib a envs] ex [OF that(1)] that(2)
    by simp
  have loop: "\<exists>pre. main lib a su (envs @ env # later) =
              (evs1 @ pre
                 @ concat (map (\<lambda>k. failed_attempt_events thr k (RuntimeError (m k))) [1, 2, 3, 4, 5]),
               st2, Some reopen_failure)"
    if "\<forall>k \<in> {1..5}. hw k = StartRaises (RuntimeError (m k))"
      "v_reopen env = hw" "main lib a su envs = (evs1, st1, None)"
      "snd (warmup_threshold (su_spectra su)) = Inr thr"
      "mhz = visit_order (Suc (length envs)) ! length envs"
      "poll_monitor_for_gps lib (if mon_sub a then Some (v_recv env) else None) st1 = Inr st1'"
      "parse_rf_map (get_latest_map (v_maps env)) (real_of_int mhz * 1000000) = s # rest"
      "run_confirm lib (fst (max_by_bw s rest)) (v_proc env) (st1'\<lparr>tb := False\<rparr>) = (e2, st2, Inr res)"
    using main_reopen_in_loop_fatal [OF that(3,4,5,6,7,8), of _ reopen_failure later]
      ex [OF that(1)] that(2)
    by simp
  show ?thesis
    using c first shape ex warm loop retry_succeeds [of n hw m thr]
      main_raised_append [of lib a su envs evs st' e later]
    by blast
qed

theorem reopen_retry_bounded_fatal_witness:
  "start_tb_with_retry (- 90) always_busy =
     (concat (map (\<lambda>k. failed_attempt_events (- 90) k (RuntimeError ''device busy'')) [1, 2, 3, 4, 5]),
      Inl (RuntimeError ''failed to reopen SDR after retries''))
   \<and> length (filter (\<lambda>e. e = Sleep 2) (fst (start_tb_with_retry (- 90) always_busy))) = 5
   \<and> length (filter (\<lambda>e. e = HwConstruct (- 90)) (fst (start_tb_with_retry (- 90) always_busy))) = 5
   \<and> (\<exists>pre. main example_lib example_args (example_startup\<lparr>su_reopen := always_busy\<rparr>) [example_visit] =
        (pre @ concat (map (\<lambda>k. failed_attempt_events (- 90) k (RuntimeError ''device busy'')) [1, 2, 3, 4, 5]),
         initial_state\<lparr>tb := False\<rparr>, Some (RuntimeError ''failed to reopen SDR after retries'')))
   \<and> (\<exists>pre. main example_lib example_args example_startup
               ([] @ example_visit\<lparr>v_reopen := always_busy\<rparr> # [example_visit]) =
        (fst (main example_lib example_args example_startup []) @ pre
           @ concat (map (\<lambda>k. failed_attempt_events (- 90) k (RuntimeError ''device busy'')) [1, 2, 3, 4, 5]),
         initial_state\<lparr>tb := False, confirm_disabled_reason := Some ''suscli not found in PATH''\<rparr>,
         Some (RuntimeError ''failed to reopen SDR after retries'')))"
proof -
  let ?five = "concat (map (\<lambda>k. failed_attempt_events (- 90) k (RuntimeError ''device busy'')) [1, 2, 3, 4, 5])"
  let ?bad = "example_visit\<lparr>v_reopen := always_busy\<rparr>"
  let ?st2 = "initial_state\<lparr>tb := False, confirm_disabled_reason := Some ''suscli not found in PATH''\<rparr>"
  let ?s = "(4990200000, 4200000) :: real \<times> real"
  let ?rest = "[(4990500000, 6000000)] :: (real \<times> real) list"
  let ?e2 = "[SubprocessRun 4990500000, SubprocessEnd, Print (WarnConfirmDisabled ''suscli not found in PATH'')]"
  have fails: "\<forall>k \<in> {1..5}. always_busy k = StartRaises (RuntimeError ((\<lambda>k. ''device busy'') k))"
    by (simp add: always_busy_def)
  have thr: "snd (warmup_threshold (su_spectra example_startup)) = Inr (- 90)"
    by code_simp
  have thr': "snd (warmup_threshold (su_spectra (example_startup\<lparr>su_reopen := always_busy\<rparr>))) = Inr (- 90)"
    by code_simp
  have first: "su_first_open (example_startup\<lparr>su_reopen := always_busy\<rparr>) = StartOk"
    "su_reopen (example_startup\<lparr>su_reopen := always_busy\<rparr>) = always_busy"
    "v_reopen ?bad = always_busy"
    by (simp_all add: example_startup_def)
  have run0: "snd (main example_lib example_args example_startup []) = (initial_state\<lparr>tb := True\<rparr>, None)"
    by code_simp
  have run: "main example_lib example_args example_startup []
      = (fst (main example_lib example_args example_startup []), initial_state\<lparr>tb := True\<rparr>, None)"
    using run0 by (simp add: prod_eq_iff)
  have mhz: "(4990 :: int) = visit_order (Suc (length ([] :: visit_env list))) ! length ([] :: visit_env list)"
    by code_simp
  have poll: "poll_monitor_for_gps example_lib (if mon_sub example_args then Some (v_recv ?bad) else None)
      (initial_state\<lparr>tb := True\<rparr>) = Inr (initial_state\<lparr>tb := True\<rparr>)"
    by code_simp
  have sig: "parse_rf_map (get_latest_map (v_maps ?bad)) (real_of_int 4990 * 1000000) = ?s # ?rest"
    by code_simp
  have conf: "run_confirm example_lib (fst (max_by_bw ?s ?rest)) (v_proc ?bad)
      (initial_state\<lparr>tb := True\<rparr>\<lparr>tb := False\<rparr>) = (?e2, ?st2, Inr (None, None))"
    by code_simp
  note t = reopen_retry_bounded_fatal [where hw = always_busy and m = "\<lambda>k. ''device busy''"
      and thr = "- 90" and lib = example_lib and a = example_args]
  have a: "start_tb_with_retry (- 90) always_busy = (?five, Inl reopen_failure)"
    using t fails by blast
  have b: "\<exists>pre. main example_lib example_args (example_startup\<lparr>su_reopen := always_busy\<rparr>) [example_visit] =
        (pre @ ?five, initial_state\<lparr>tb := False\<rparr>, Some reopen_failure)"
    using t [where su = "example_startup\<lparr>su_reopen := always_busy\<rparr>" and envs = "[example_visit]"]
      fails thr' first by blast
  have c: "\<exists>pre. main example_lib example_args example_startup ([] @ ?bad # [example_visit]) =
        (fst (main example_lib example_args example_startup []) @ pre @ ?five, ?st2, Some reopen_failure)"
    using t [where su = example_startup and envs = "[]" and env = ?bad
        and ?evs1.0 = "fst (main example_lib example_args example_startup [])"
        and ?st1.0 = "initial_state\<lparr>tb := True\<rparr>" and st1' = "initial_state\<lparr>tb := True\<rparr>"
        and mhz = 4990 and s = ?s and rest = ?rest and ?e2.0 = ?e2 and ?st2.0 = ?st2
        and res = "(None, None)" and later = "[example_visit]"]
      fails thr first(3) run mhz poll sig conf by blast
  have d: "length (filter (\<lambda>e. e = Sleep 2) ?five) = 5"
    "length (filter (\<lambda>e. e = HwConstruct (- 90)) ?five) = 5"
    by (simp_all add: failed_attempt_events_def REOPEN_DELAY_S_def)
  show ?thesis
    using a b c d by (simp add: reopen_failure_def)
qed

text \<open>
  C3, as stated, fails: the first open of \<^verbatim>\<open>main\<close> makes one attempt, without retry
  or delay, and ends the process when \<^verbatim>\<open>tb.start()\<close> raises; and a constructor that
  raises inside \<^verbatim>\<open>start_tb_with_retry\<close> leaves it on the first attempt.
\<close>

theorem open_retry_counterexample:
  "main example_lib example_args
        (example_startup\<lparr>su_first_open := StartRaises (RuntimeError ''device busy'')\<rparr>) [example_visit]
     = ([HwConstruct (- 90)], initial_state\<lparr>tb := True\<rparr>, Some (RuntimeError ''device busy''))
   \<and> start_tb_with_retry (- 90) ctor_busy = ([], Inl (RuntimeError ''device busy''))"
  by (simp add: main_def example_startup_def THRESHOLD_DB_def start_tb_with_retry_def
        REOPEN_RETRIES_def upt_rec ctor_busy_def)

section \<open>Timeouts and non-zero exits of the classifier\<close>











section \<open>The widest signal is the confirmation candidate\<close>

lemma max_by_bw_mem: "max_by_bw best xs \<in> set (best # xs)"
  by (induction xs arbitrary: best) auto

lemma max_by_bw_ge: "x \<in> set (best # xs) \<Longrightarrow> snd x \<le> snd (max_by_bw best xs)"
proof (induction xs arbitrary: best x)
  case Nil
  then show ?case by simp
next
  case (Cons y ys)
  have mono: "snd b \<le> snd (max_by_bw b ys)" for b
    using Cons.IH [of b b] by simp
  show ?case
  proof (cases "x \<in> set ys")
    case True
    then show ?thesis using Cons.IH by simp
  next
    case False
    let ?b = "if snd best < snd y then y else best"
    have "snd x \<le> snd ?b" using False Cons.prems by auto
    also have "\<dots> \<le> snd (max_by_bw ?b ys)" by (rule mono)
    finally show ?thesis by simp
  qed
qed

lemma start_tb_attempts_hw_only:
  "e \<in> set (fst (start_tb_attempts thr hw as)) \<Longrightarrow>
     \<not> is_subprocess_run e \<and> (\<forall>parts. e \<noteq> Publish parts)"
proof (induction as)
  case Nil
  then show ?case by simp
next
  case (Cons k as)
  then show ?case by (cases "hw k") (auto split: prod.splits if_splits)
qed

lemma run_confirm_keeps_gps:
  "run_confirm lib hz outcome st = (evs, st', r) \<Longrightarrow> last_sensor_gps st' = last_sensor_gps st"
  by (auto simp: run_confirm_def disable_confirm_def Let_def split: proc_outcome.splits if_splits)

lemma build_alert_messages_gps:
  "last_sensor_gps st' = last_sensor_gps st \<Longrightarrow>
     build_alert_messages st' hz bw p n src = build_alert_messages st hz bw p n src"
  by (simp add: build_alert_messages_def)

lemma run_confirm_one_call:
  "run_confirm lib hz outcome st = (evs, st', r) \<Longrightarrow>
     (\<forall>x. SubprocessRun x \<in> set evs \<longrightarrow> x = hz)
     \<and> length (filter is_subprocess_run evs) \<le> 1
     \<and> (\<forall>parts. Publish parts \<notin> set evs)"
  using run_confirm_events [of lib hz outcome st] by auto

lemma report_events_candidate:
  "e \<in> set (report_events a st hz bw res @ [Sleep COOLDOWN_S]) \<Longrightarrow>
     \<not> is_subprocess_run e \<and> (\<forall>parts. e = Publish parts \<longrightarrow> (\<exists>p n. parts = build_alert_messages st hz bw p n ''confirm''))"
proof -
  assume e: "e \<in> set (report_events a st hz bw res @ [Sleep COOLDOWN_S])"
  obtain p n where res: "res = (p, n)" by (cases res)
  show ?thesis
    using e by (cases p; cases n) (auto simp: res report_events_def publish_alert_def split: if_splits)
qed

lemma confirm_cycle_candidate:
  assumes "max_by_bw s rest = (chz, cbw)"
  shows "\<exists>tail. fst (confirm_cycle lib a thr mhz env s rest st) =
            announce_events a mhz (s # rest) st chz cbw @ release_events @ tail
          \<and> (\<forall>hz. SubprocessRun hz \<in> set tail \<longrightarrow> hz = chz)
          \<and> length (filter is_subprocess_run tail) \<le> 1
          \<and> (\<forall>parts. Publish parts \<in> set tail \<longrightarrow>
                (\<exists>p n. parts = build_alert_messages st chz cbw p n ''confirm''))"
proof -
  obtain e2 st2 r where rc: "run_confirm lib chz (v_proc env) (st\<lparr>tb := False\<rparr>) = (e2, st2, r)"
    by (cases "run_confirm lib chz (v_proc env) (st\<lparr>tb := False\<rparr>)")
  obtain e4 r4 where rt: "start_tb_with_retry thr (v_reopen env) = (e4, r4)"
    by (cases "start_tb_with_retry thr (v_reopen env)")
  note c2 = run_confirm_one_call [OF rc]
  have gps: "last_sensor_gps st2 = last_sensor_gps st"
    using run_confirm_keeps_gps [OF rc] by simp
  have c4: "\<not> is_subprocess_run e \<and> (\<forall>parts. e \<noteq> Publish parts)" if "e \<in> set e4" for e
    using start_tb_attempts_hw_only [of e thr "v_reopen env" "[1..<REOPEN_RETRIES + 1]"] rt that
    by (simp add: start_tb_with_retry_def)
  have f4: "filter is_subprocess_run e4 = []"
    using c4 by (simp add: filter_empty_conv)
  define rep where "rep = (\<lambda>x. report_events a st2 chz cbw x @ [Sleep COOLDOWN_S])"
  have c3: "\<not> is_subprocess_run e \<and>
        (\<forall>parts. e = Publish parts \<longrightarrow> (\<exists>p n. parts = build_alert_messages st chz cbw p n ''confirm''))"
    if "e \<in> set (rep x)" for e x
    using report_events_candidate [of e a st2 chz cbw x] that build_alert_messages_gps [OF gps]
    by (simp add: rep_def)
  have f3: "filter is_subprocess_run (rep x) = []" for x
    using c3 by (simp add: filter_empty_conv)
  show ?thesis
  proof (cases r)
    case (Inl err)
    then have "fst (confirm_cycle lib a thr mhz env s rest st) =
        announce_events a mhz (s # rest) st chz cbw @ release_events @ e2"
      using assms rc by (simp add: confirm_cycle_def Let_def)
    then show ?thesis using c2 by blast
  next
    case (Inr x)
    then have ev: "fst (confirm_cycle lib a thr mhz env s rest st) =
        announce_events a mhz (s # rest) st chz cbw @ release_events @ (e2 @ rep x @ e4)"
      using assms rc rt by (auto simp: confirm_cycle_def rep_def Let_def split: sum.splits)
    have t1: "\<forall>hz. SubprocessRun hz \<in> set (e2 @ rep x @ e4) \<longrightarrow> hz = chz"
      using c2 c3 [of _ x] c4 by fastforce
    have t2: "length (filter is_subprocess_run (e2 @ rep x @ e4)) \<le> 1"
      using c2 by (simp add: f3 f4)
    have t3: "\<forall>parts. Publish parts \<in> set (e2 @ rep x @ e4) \<longrightarrow>
                (\<exists>p n. parts = build_alert_messages st chz cbw p n ''confirm'')"
      using c2 c3 [of _ x] c4 by fastforce
    show ?thesis using ev t1 t2 t3 by blast
  qed
qed

text \<open>
  C7. On a channel visit whose location poll returns and whose detection report
  \<open>s # rest\<close> is not empty, the candidate \<open>(chz, cbw)\<close> is a reported pair whose bandwidth
  is the largest of the report. The visit tunes and waits, prints the whole report,
  publishes, when publishing is enabled, one alert made of the Basic ID of the
  candidate's frequency in MHz, the location vector of the last valid fix if there is
  one, the Self ID \<^verbatim>\<open>FPV alert (energy)\<close>, the frequency message of the candidate's
  frequency and the signal info with source \<^verbatim>\<open>energy\<close>, the candidate's frequency and
  bandwidth and both scores 0.0, and releases the radio; only then comes the rest of
  the visit. There at most one subprocess is run, on the candidate's frequency, and
  every alert published is a confirm alert with the candidate's frequency and
  bandwidth. The other pairs are printed and nothing else is done with them. The same
  holds of the trace of \<^verbatim>\<open>main\<close> when the visit is the next one of a run that no
  exception has ended.
\<close>

theorem widest_signal_is_candidate:
  assumes "poll_monitor_for_gps lib (if mon_sub a then Some (v_recv env) else None) st = Inr st1"
    and "parse_rf_map (get_latest_map (v_maps env)) (real_of_int mhz * 1000000) = s # rest"
    and "max_by_bw s rest = (chz, cbw)"
  shows "(chz, cbw) \<in> set (s # rest) \<and> (\<forall>x \<in> set (s # rest). snd x \<le> cbw)
     \<and> (\<exists>tail. fst (visit lib a thr mhz env st) =
            [SetCenter (real_of_int mhz * 1000000), Sleep SETTLE_S, Sleep DWELL_S,
             Print (SignalsLine mhz (s # rest))]
            @ (if zmq a
               then [Publish ([BasicID (chz / 1000000)]
                       @ (case last_sensor_gps st1 of
                            None \<Rightarrow> []
                          | Some (lat, lon, alt) \<Rightarrow> [LocationVector lat lon alt 0 0 0])
                       @ [SelfID ''FPV alert (energy)'', FrequencyMessage chz,
                          SignalInfo ''energy'' chz cbw 0 0])]
               else [])
            @ [HwStop, HwWait, GcCollect, Sleep COOLDOWN_S] @ tail
          \<and> (\<forall>hz. SubprocessRun hz \<in> set tail \<longrightarrow> hz = chz)
          \<and> length (filter is_subprocess_run tail) \<le> 1
          \<and> (\<forall>parts. Publish parts \<in> set tail \<longrightarrow>
                (\<exists>p n. parts =
                   [BasicID (chz / 1000000)]
                   @ (case last_sensor_gps st1 of
                        None \<Rightarrow> []
                      | Some (lat, lon, alt) \<Rightarrow> [LocationVector lat lon alt 0 0 0])
                   @ [SelfID ''FPV alert (confirm)'', FrequencyMessage chz,
                      SignalInfo ''confirm'' chz cbw p n])))
     \<and> (main lib a su envs = (evs1, st, None)
          \<and> snd (warmup_threshold (su_spectra su)) = Inr thr
          \<and> mhz = visit_order (Suc (length envs)) ! length envs \<longrightarrow>
        (\<exists>tail. fst (main lib a su (envs @ [env])) =
            evs1
            @ [SetCenter (real_of_int mhz * 1000000), Sleep SETTLE_S, Sleep DWELL_S,
               Print (SignalsLine mhz (s # rest))]
            @ (if zmq a
               then [Publish ([BasicID (chz / 1000000)]
                       @ (case last_sensor_gps st1 of
                            None \<Rightarrow> []
                          | Some (lat, lon, alt) \<Rightarrow> [LocationVector lat lon alt 0 0 0])
                       @ [SelfID ''FPV alert (energy)'', FrequencyMessage chz,
                          SignalInfo ''energy'' chz cbw 0 0])]
               else [])
            @ [HwStop, HwWait, GcCollect, Sleep COOLDOWN_S] @ tail
          \<and> (\<forall>hz. SubprocessRun hz \<in> set tail \<longrightarrow> hz = chz)
          \<and> length (filter is_subprocess_run tail) \<le> 1
          \<and> (\<forall>parts. Publish parts \<in> set tail \<longrightarrow>
                (\<exists>p n. parts =
                   [BasicID (chz / 1000000)]
                   @ (case last_sensor_gps st1 of
                        None \<Rightarrow> []
                      | Some (lat, lon, alt) \<Rightarrow> [LocationVector lat lon alt 0 0 0])
                   @ [SelfID ''FPV alert (confirm)'', FrequencyMessage chz,
                      SignalInfo ''confirm'' chz cbw p n]))))"
proof -
  define energy where "energy =
      [BasicID (chz / 1000000)]
      @ (case last_sensor_gps st1 of
           None \<Rightarrow> []
         | Some (lat, lon, alt) \<Rightarrow> [LocationVector lat lon alt 0 0 0])
      @ [SelfID ''FPV alert (energy)'', FrequencyMessage chz, SignalInfo ''energy'' chz cbw 0 0]"
  define confirm where "confirm = (\<lambda>p n.
      [BasicID (chz / 1000000)]
      @ (case last_sensor_gps st1 of
           None \<Rightarrow> []
         | Some (lat, lon, alt) \<Rightarrow> [LocationVector lat lon alt 0 0 0])
      @ [SelfID ''FPV alert (confirm)'', FrequencyMessage chz, SignalInfo ''confirm'' chz cbw p n])"
  define pre where "pre =
      [SetCenter (real_of_int mhz * 1000000), Sleep SETTLE_S, Sleep DWELL_S,
       Print (SignalsLine mhz (s # rest))]
      @ (if zmq a then [Publish energy] else [])
      @ [HwStop, HwWait, GcCollect, Sleep COOLDOWN_S]"
  have en: "build_alert_messages st1 chz cbw 0 0 ''energy'' = energy"
    by (simp add: build_alert_messages_def energy_def)
  have co: "build_alert_messages st1 chz cbw p n ''confirm'' = confirm p n" for p n
    by (simp add: build_alert_messages_def confirm_def)
  have mem: "(chz, cbw) \<in> set (s # rest)"
    using max_by_bw_mem [of s rest] assms(3) by simp
  have ge: "\<forall>x \<in> set (s # rest). snd x \<le> cbw"
    using max_by_bw_ge [of _ s rest] assms(3) by simp
  obtain tail where t: "fst (confirm_cycle lib a thr mhz env s rest st1) =
            announce_events a mhz (s # rest) st1 chz cbw @ release_events @ tail"
      "\<forall>hz. SubprocessRun hz \<in> set tail \<longrightarrow> hz = chz"
      "length (filter is_subprocess_run tail) \<le> 1"
      "\<forall>parts. Publish parts \<in> set tail \<longrightarrow> (\<exists>p n. parts = confirm p n)"
    using confirm_cycle_candidate [OF assms(3), of lib a thr mhz env st1] unfolding co by blast
  have vis: "fst (visit lib a thr mhz env st) = pre @ tail"
    using assms(1,2) t(1)
    by (auto simp: visit_def Let_def announce_events_def release_events_def publish_alert_def
          en pre_def split: prod.splits)
  have v: "\<exists>tail. fst (visit lib a thr mhz env st) = pre @ tail
          \<and> (\<forall>hz. SubprocessRun hz \<in> set tail \<longrightarrow> hz = chz)
          \<and> length (filter is_subprocess_run tail) \<le> 1
          \<and> (\<forall>parts. Publish parts \<in> set tail \<longrightarrow> (\<exists>p n. parts = confirm p n))"
    using vis t(2,3,4) by blast
  have m: "\<exists>tail. fst (main lib a su (envs @ [env])) = evs1 @ pre @ tail
          \<and> (\<forall>hz. SubprocessRun hz \<in> set tail \<longrightarrow> hz = chz)
          \<and> length (filter is_subprocess_run tail) \<le> 1
          \<and> (\<forall>parts. Publish parts \<in> set tail \<longrightarrow> (\<exists>p n. parts = confirm p n))"
    if h: "main lib a su envs = (evs1, st, None)"
      "snd (warmup_threshold (su_spectra su)) = Inr thr"
      "mhz = visit_order (Suc (length envs)) ! length envs"
  proof -
    obtain ev st2 r where vr: "visit lib a thr mhz env st = (ev, st2, r)"
      by (cases "visit lib a thr mhz env st")
    have ev: "ev = pre @ tail" using vis vr by simp
    have vr': "visit lib a thr (visit_order (Suc (length envs)) ! length envs) env st = (ev, st2, r)"
      using vr h(3) by simp
    show ?thesis
    proof (cases r)
      case None
      have "main lib a su (envs @ [env]) = (evs1 @ ev, st2, None)"
        using main_next_visit_returns [OF h(1,2), of env ev st2] vr' None by simp
      then have "fst (main lib a su (envs @ [env])) = evs1 @ pre @ tail"
        using ev by simp
      then show ?thesis using t(2,3,4) by blast
    next
      case (Some x)
      define fin where "fin = (if tb st2 then [HwStop, HwWait] else [])"
      have "main lib a su (envs @ env # []) = (evs1 @ ev @ fin, st2, Some x)"
        unfolding fin_def
        using main_next_visit_raises [OF h(1,2), of env ev st2 x "[]"] vr' Some by simp
      then have e: "fst (main lib a su (envs @ [env])) = evs1 @ pre @ (tail @ fin)"
        using ev by simp
      have f1: "\<forall>hz. SubprocessRun hz \<in> set (tail @ fin) \<longrightarrow> hz = chz"
        using t(2) by (auto simp: fin_def)
      have f2: "length (filter is_subprocess_run (tail @ fin)) \<le> 1"
        using t(3) by (simp add: fin_def)
      have f3: "\<forall>parts. Publish parts \<in> set (tail @ fin) \<longrightarrow> (\<exists>p n. parts = confirm p n)"
        using t(4) by (auto simp: fin_def)
      show ?thesis using e f1 f2 f3 by blast
    qed
  qed
  show ?thesis
    using mem ge v m unfolding pre_def energy_def confirm_def append_assoc by blast
qed

theorem widest_signal_is_candidate_witness:
  "(\<exists>tail. fst (visit example_lib example_args (- 90) 5805 example_visit initial_state) =
       [SetCenter 5805000000, Sleep SETTLE_S, Sleep DWELL_S,
        Print (SignalsLine 5805 [(5805200000, 4200000), (5805500000, 6000000)]),
        Publish [BasicID (5805500000 / 1000000), SelfID ''FPV alert (energy)'',
                 FrequencyMessage 5805500000, SignalInfo ''energy'' 5805500000 6000000 0 0],
        HwStop, HwWait, GcCollect, Sleep COOLDOWN_S] @ tail
     \<and> length (filter is_subprocess_run tail) \<le> 1)
   \<and> (\<exists>tail. fst (main example_lib example_args example_startup ([] @ [example_visit])) =
       fst (main example_lib example_args example_startup [])
       @ [SetCenter 4990000000, Sleep SETTLE_S, Sleep DWELL_S,
          Print (SignalsLine 4990 [(4990200000, 4200000), (4990500000, 6000000)]),
          Publish [BasicID (4990500000 / 1000000), SelfID ''FPV alert (energy)'',
                   FrequencyMessage 4990500000, SignalInfo ''energy'' 4990500000 6000000 0 0],
          HwStop, HwWait, GcCollect, Sleep COOLDOWN_S] @ tail
     \<and> length (filter is_subprocess_run tail) \<le> 1)"
proof -
  have p: "poll_monitor_for_gps example_lib
             (if mon_sub example_args then Some (v_recv example_visit) else None) initial_state
           = Inr initial_state"
    by (simp add: poll_monitor_for_gps_def example_args_def example_visit_def)
  have s: "parse_rf_map (get_latest_map (v_maps example_visit)) (real_of_int 5805 * 1000000)
           = (5805200000, 4200000) # [(5805500000, 6000000)]"
    by code_simp
  have m: "max_by_bw (5805200000, 4200000) [(5805500000, 6000000)] = (5805500000, 6000000)"
    by simp
  have gps: "last_sensor_gps initial_state = None" "last_sensor_gps (initial_state\<lparr>tb := True\<rparr>) = None"
    by (simp_all add: initial_state_def)
  have "\<exists>tail. fst (visit example_lib example_args (- 90) 5805 example_visit initial_state) =
       [SetCenter (real_of_int 5805 * 1000000), Sleep SETTLE_S, Sleep DWELL_S,
        Print (SignalsLine 5805 ((5805200000, 4200000) # [(5805500000, 6000000)]))]
       @ (if zmq example_args
          then [Publish ([BasicID (5805500000 / 1000000)]
                  @ (case last_sensor_gps initial_state of
                       None \<Rightarrow> []
                     | Some (lat, lon, alt) \<Rightarrow> [LocationVector lat lon alt 0 0 0])
                  @ [SelfID ''FPV alert (energy)'', FrequencyMessage 5805500000,
                     SignalInfo ''energy'' 5805500000 6000000 0 0])]
          else [])
       @ [HwStop, HwWait, GcCollect, Sleep COOLDOWN_S] @ tail
     \<and> length (filter is_subprocess_run tail) \<le> 1"
    using widest_signal_is_candidate [OF p s m, of "- 90"]
    by blast
  then have a: "\<exists>tail. fst (visit example_lib example_args (- 90) 5805 example_visit initial_state) =
       [SetCenter 5805000000, Sleep SETTLE_S, Sleep DWELL_S,
        Print (SignalsLine 5805 [(5805200000, 4200000), (5805500000, 6000000)]),
        Publish [BasicID (5805500000 / 1000000), SelfID ''FPV alert (energy)'',
                 FrequencyMessage 5805500000, SignalInfo ''energy'' 5805500000 6000000 0 0],
        HwStop, HwWait, GcCollect, Sleep COOLDOWN_S] @ tail
     \<and> length (filter is_subprocess_run tail) \<le> 1"
    by (simp add: example_args_def gps)
  have p': "poll_monitor_for_gps example_lib
             (if mon_sub example_args then Some (v_recv example_visit) else None)
             (initial_state\<lparr>tb := True\<rparr>)
           = Inr (initial_state\<lparr>tb := True\<rparr>)"
    by (simp add: poll_monitor_for_gps_def example_args_def example_visit_def)
  have s': "parse_rf_map (get_latest_map (v_maps example_visit)) (real_of_int 4990 * 1000000)
           = (4990200000, 4200000) # [(4990500000, 6000000)]"
    by code_simp
  have m': "max_by_bw (4990200000, 4200000) [(4990500000, 6000000)] = (4990500000, 6000000)"
    by simp
  have thr: "snd (warmup_threshold (su_spectra example_startup)) = Inr (- 90)"
    by code_simp
  have run0: "snd (main example_lib example_args example_startup []) = (initial_state\<lparr>tb := True\<rparr>, None)"
    by code_simp
  have run: "main example_lib example_args example_startup []
      = (fst (main example_lib example_args example_startup []), initial_state\<lparr>tb := True\<rparr>, None)"
    using run0 by (simp add: prod_eq_iff)
  have mhz: "(4990 :: int) = visit_order (Suc (length ([] :: visit_env list))) ! length ([] :: visit_env list)"
    by code_simp
  have "\<exists>tail. fst (main example_lib example_args example_startup ([] @ [example_visit])) =
       fst (main example_lib example_args example_startup [])
       @ [SetCenter (real_of_int 4990 * 1000000), Sleep SETTLE_S, Sleep DWELL_S,
          Print (SignalsLine 4990 ((4990200000, 4200000) # [(4990500000, 6000000)]))]
       @ (if zmq example_args
          then [Publish ([BasicID (4990500000 / 1000000)]
                  @ (case last_sensor_gps (initial_state\<lparr>tb := True\<rparr>) of
                       None \<Rightarrow> []
                     | Some (lat, lon, alt) \<Rightarrow> [LocationVector lat lon alt 0 0 0])
                  @ [SelfID ''FPV alert (energy)'', FrequencyMessage 4990500000,
                     SignalInfo ''energy'' 4990500000 6000000 0 0])]
          else [])
       @ [HwStop, HwWait, GcCollect, Sleep COOLDOWN_S] @ tail
     \<and> length (filter is_subprocess_run tail) \<le> 1"
    using widest_signal_is_candidate [OF p' s' m', where su = example_startup and envs = "[]"
        and ?evs1.0 = "fst (main example_lib example_args example_startup [])" and thr = "- 90"]
      run thr mhz
    by blast
  then have b: "\<exists>tail. fst (main example_lib example_args example_startup ([] @ [example_visit])) =
       fst (main example_lib example_args example_startup [])
       @ [SetCenter 4990000000, Sleep SETTLE_S, Sleep DWELL_S,
          Print (SignalsLine 4990 [(4990200000, 4200000), (4990500000, 6000000)]),
          Publish [BasicID (4990500000 / 1000000), SelfID ''FPV alert (energy)'',
                   FrequencyMessage 4990500000, SignalInfo ''energy'' 4990500000 6000000 0 0],
          HwStop, HwWait, GcCollect, Sleep COOLDOWN_S] @ tail
     \<and> length (filter is_subprocess_run tail) \<le> 1"
    by (simp add: example_args_def gps)
  show ?thesis
    using a b by blast
qed

end
